theory Spec2Isabelle
  imports Main "HOL-Library.AList" "HOL-Library.Word"
begin

section \<open>The chat gateway: data model\<close>

text \<open>
  The development embeds the class \<open>ChatGateway\<close> (the gateway file of the repository)
  and the two schema files it uses. The gateway keeps three in-memory registries
  (\<open>connectedUsers\<close>, \<open>typingUsers\<close>, \<open>tempUploads\<close>) and talks to three collaborators: the
  durable store (three collections), the file system (the uploads directory) and the
  transport. Every handler becomes a function from the state before to the state after and
  the list of transport actions it performs, in the order it performs them.

  Conventions of the model:
  \<^item> a socket is its identifier and the username that the handshake attached to it
    (\<open>client.id\<close>, \<open>client.data.user.username\<close>); the verification of the token is
    not part of the model;
  \<^item> a date is a number of milliseconds; what a handler reads from the clock
    (\<open>new Date()\<close>, \<open>Date.now()\<close>, the defaults of a new document) before the document
    it makes is saved is the argument \<open>now\<close> of the handler; the clock is read once more
    where a saved message is stamped as delivered, and that later reading is
    \<open>later e now\<close>, a field of the environment;
  \<^item> the collections of the durable store are lists in insertion order, the uploads
    directory is a map from file name to content, and the effect of an awaited call is
    placed at the call. The store refuses a private message in which a required field
    is empty (\<open>save\<close>, \<open>saveModified\<close>); a store or a file system that is out of
    reach is outside the model;
  \<^item> an exception that no \<open>catch\<close> of the gateway handles ends the handler: its state
    and its actions are those reached before the throw (what the framework then reports
    to the client is not in the sources);
  \<^item> the dispatcher (\<open>step\<close>, \<open>run\<close>) handles the events one after the other, each to
    its end. The chunk handler is also given in the pieces between its \<open>await\<close>s
    (\<open>uploadChunkBegin\<close>, \<open>uploadChunkResume\<close>), so that what happens when another chunk
    is handled in between can be stated;
  \<^item> a JavaScript \<open>Map\<close> that the code iterates (\<open>connectedUsers\<close>) is an association list
    in insertion order: \<open>set\<close> is \<open>AList.update\<close> (in place for a present key, at the end
    otherwise), \<open>get\<close> is \<open>map_of\<close>, \<open>delete\<close> is \<open>AList.delete\<close>; the maps that are only
    looked up by key are partial functions;
  \<^item> the base-64 decoder of the platform and the regular-expression matcher of the store
    are not part of the repository; with the second reading of the clock they are the
    fields of an environment record.
\<close>

type_synonym date = nat
type_synonym buffer = "8 word list"

record Socket =
  socketId :: string
  socketUser :: string

text \<open>The field \<open>timestamp\<close> of a reaction is \<open>reactedAt\<close> here.\<close>

record Reaction =
  userId :: string
  emoji :: string
  reactedAt :: date

record PrivateMessage =
  msg_id :: nat
  sender :: string
  receiver :: string
  content :: string
  isRead :: bool
  isDelivered :: bool
  timestamp :: date
  deliveredAt :: date
  readAt :: "date option"
  fileUrl :: "string option"
  fileName :: "string option"
  fileType :: "string option"
  fileSize :: "int option"
  isVoiceMessage :: bool
  duration :: "int option"
  reactions :: "Reaction list"
  likes :: "string list"
  dislikes :: "string list"

text \<open>
  Modelled from the spec: the schema file of the room messages is not among the sources.
  A room message has an identifier and the three fields that \<open>handleMessage\<close> sets.
\<close>

record RoomMessage =
  rm_id :: nat
  rm_sender :: string
  rm_content :: string
  rm_room :: string

record User =
  user_id :: nat
  username :: string
  password :: string
  isOnline :: bool
  lastSeen :: date
  createdAt :: date

text \<open>
  What leaves the process as a user record is a document: a list of named fields. The
  projection \<open>{ password: 0 }\<close> of a query removes the named field from every document.
\<close>

datatype jsval = JStr string | JBool bool | JDate date | JId nat

type_synonym doc = "(string \<times> jsval) list"

definition userDoc :: "User \<Rightarrow> doc" where
  "userDoc u =
     [(''_id'', JId (user_id u)),
      (''username'', JStr (username u)),
      (''password'', JStr (password u)),
      (''isOnline'', JBool (isOnline u)),
      (''lastSeen'', JDate (lastSeen u)),
      (''createdAt'', JDate (createdAt u))]"

definition exclude :: "string list \<Rightarrow> doc \<Rightarrow> doc" where
  "exclude names d = filter (\<lambda>kv. fst kv \<notin> set names) d"

text \<open>
  An upload session. \<open>chunks\<close> is a JavaScript array, which may have holes: an element
  is \<open>None\<close> where nothing was stored. \<open>totalChunks\<close> is the number the client declared;
  it is compared with a count by \<open>===\<close>, so a negative value never matches.
\<close>

record upload =
  chunks :: "buffer option list"
  totalChunks :: int

record state =
  connectedUsers :: "(string \<times> string) list"
  typingUsers :: "string \<rightharpoonup> string set"
  tempUploads :: "string \<rightharpoonup> upload"
  messageModel :: "RoomMessage list"
  privateMessageModel :: "PrivateMessage list"
  userModel :: "User list"
  uploadsDir :: "string \<rightharpoonup> buffer"

record env =
  base64 :: "string \<Rightarrow> buffer"
  regexI :: "string \<Rightarrow> (string \<Rightarrow> bool) option"
  later :: "date \<Rightarrow> date"

subsection \<open>Transport actions\<close>

datatype outEvent =
    UserList "doc list"
  | NewMessage RoomMessage
  | NewPrivateMessage PrivateMessage
  | MessageDelivered nat
  | MessageRead nat date
  | PrivateMessages "PrivateMessage list"
  | SearchResults "doc list"
  | UserTyping string
  | UserStoppedTyping string
  | UploadStarted string
  | ChunkReceived string int
  | UploadError string "string option"
  | UploadCancelled string

text \<open>
  \<open>ToClient s\<close> is \<open>client.emit\<close> on the socket with identifier \<open>s\<close>, \<open>ToRoom r\<close> is
  \<open>server.to(r).emit\<close>, \<open>ToAll\<close> is \<open>server.emit\<close>.
\<close>

datatype target = ToClient string | ToRoom string | ToAll

datatype action =
    Emit target outEvent
  | Join string string
  | Leave string string

datatype error = SessionNotFound | DecodeFailure | ConcatFailure | ValidationError

subsection \<open>Payloads and inbound events\<close>

record StartPayload =
  sp_receiver :: string
  sp_fileName :: string
  sp_fileType :: string
  sp_fileSize :: int
  sp_totalChunks :: int

record ChunkPayload =
  p_uploadId :: string
  p_chunk :: string
  p_chunkIndex :: int
  p_receiver :: string
  p_fileName :: string
  p_fileType :: string
  p_fileSize :: int

text \<open>
  \<open>StartFileUpload\<close> carries, besides the payload, the text that
  \<open>Math.random().toString(36).substring(7)\<close> produced on that run.
\<close>

datatype event =
    Connection Socket
  | Disconnect Socket
  | JoinRoom Socket string
  | LeaveRoom Socket string
  | SendMessage Socket string string
  | SendPrivateMessage Socket string string
  | MarkMessageAsRead Socket nat
  | GetPrivateMessages Socket string
  | SearchUsers Socket string
  | Typing Socket string
  | StopTyping Socket string
  | StartFileUpload Socket StartPayload string
  | UploadChunk Socket ChunkPayload
  | CancelUpload Socket string

section \<open>Helpers\<close>

text \<open>
  The expression
  \<open>Array.from(this.connectedUsers.entries()).find(([_, username]) => username === name)?.[0]\<close>
  together with the test \<open>if (socket)\<close> that follows each of its uses: the key of the first
  entry, in insertion order, whose value is \<open>name\<close>; \<open>undefined\<close> and the empty string are
  both falsy.
\<close>

definition findSocket :: "(string \<times> string) list \<Rightarrow> string \<Rightarrow> string option" where
  "findSocket cu name =
     (case List.find (\<lambda>e. snd e = name) cu of
        None \<Rightarrow> None
      | Some e \<Rightarrow> if fst e = [] then None else Some (fst e))"

fun updateFirst :: "('a \<Rightarrow> bool) \<Rightarrow> ('a \<Rightarrow> 'a) \<Rightarrow> 'a list \<Rightarrow> 'a list" where
  "updateFirst P f [] = []"
| "updateFirst P f (x # xs) = (if P x then f x # xs else x # updateFirst P f xs)"

definition findOneAndUpdate :: "string \<Rightarrow> (User \<Rightarrow> User) \<Rightarrow> User list \<Rightarrow> User list" where
  "findOneAndUpdate name f us = updateFirst (\<lambda>u. username u = name) f us"

definition findById :: "nat \<Rightarrow> PrivateMessage list \<Rightarrow> PrivateMessage option" where
  "findById i ms = List.find (\<lambda>m. msg_id m = i) ms"

text \<open>
  The schema declares \<open>sender\<close>, \<open>receiver\<close> and \<open>content\<close> as required: the store
  refuses a document in which one of them is the empty string (a field that the client
  left out is the empty string here).
\<close>

definition storable :: "PrivateMessage \<Rightarrow> bool" where
  "storable m \<longleftrightarrow> sender m \<noteq> [] \<and> receiver m \<noteq> [] \<and> content m \<noteq> []"

text \<open>
  \<open>message.save()\<close> on a document made by \<open>new this.privateMessageModel(...)\<close>: the
  document is validated and inserted at the end of the collection.
\<close>

definition save :: "PrivateMessage \<Rightarrow> PrivateMessage list \<Rightarrow> error + PrivateMessage list" where
  "save m ms = (if storable m then Inr (ms @ [m]) else Inl ValidationError)"

text \<open>
  \<open>message.save()\<close> on a document \<open>m\<close> that is in the collection, after the assignments
  \<open>f\<close>: the document as assigned is validated, and the assigned fields are written to
  the stored document that has its identifier.
\<close>

definition saveModified ::
  "PrivateMessage \<Rightarrow> (PrivateMessage \<Rightarrow> PrivateMessage) \<Rightarrow> PrivateMessage list
     \<Rightarrow> error + PrivateMessage list" where
  "saveModified m f ms =
     (if storable (f m) then Inr (updateFirst (\<lambda>d. msg_id d = msg_id m) f ms)
      else Inl ValidationError)"

text \<open>\<open>updateMany\<close> runs no validation.\<close>

definition updateMany ::
  "nat list \<Rightarrow> (PrivateMessage \<Rightarrow> PrivateMessage) \<Rightarrow> PrivateMessage list \<Rightarrow> PrivateMessage list" where
  "updateMany ids f ms = map (\<lambda>d. if msg_id d \<in> set ids then f d else d) ms"

text \<open>A new object identifier differs from every identifier of the collection.\<close>

definition newObjectId :: "nat list \<Rightarrow> nat" where
  "newObjectId ids = Suc (fold max ids 0)"

definition newPrivateMessage :: "nat \<Rightarrow> date \<Rightarrow> PrivateMessage" where
  "newPrivateMessage i now =
     \<lparr>msg_id = i, sender = [], receiver = [], content = [],
      isRead = False, isDelivered = False, timestamp = now, deliveredAt = now,
      readAt = None, fileUrl = None, fileName = None, fileType = None, fileSize = None,
      isVoiceMessage = False, duration = None, reactions = [], likes = [], dislikes = []\<rparr>"

text \<open>\<open>String.prototype.split\<close> with a one-character separator.\<close>

fun split :: "char \<Rightarrow> string \<Rightarrow> string list" where
  "split c [] = [[]]"
| "split c (x # xs) =
     (if x = c then [] # split c xs
      else (case split c xs of [] \<Rightarrow> [[x]] | w # ws \<Rightarrow> (x # w) # ws))"

text \<open>
  \<open>Buffer.from(payload.chunk.split(',')[1], 'base64')\<close>: without a comma the second
  element is \<open>undefined\<close> and \<open>Buffer.from\<close> throws; the decoder itself accepts any string.
\<close>

definition decodeChunk :: "env \<Rightarrow> string \<Rightarrow> error + buffer" where
  "decodeChunk e chunk =
     (case split CHR '','' chunk of
        _ # b # _ \<Rightarrow> Inr (base64 e b)
      | _ \<Rightarrow> Inl DecodeFailure)"

text \<open>
  \<open>upload.chunks[i] = v\<close>: an integer from 0 to \<open>2^32 - 2\<close> is an array index, and the
  array grows with holes up to it; any other number is an ordinary property that neither
  \<open>filter\<close> nor \<open>Buffer.concat\<close> sees (numbers that are not integers behave like the
  negative ones).
\<close>

definition arraySet :: "'a option list \<Rightarrow> int \<Rightarrow> 'a \<Rightarrow> 'a option list" where
  "arraySet xs i v =
     (if 0 \<le> i \<and> i < 4294967295
      then (if nat i < length xs then xs[nat i := Some v]
            else xs @ replicate (nat i - length xs) None @ [Some v])
      else xs)"

text \<open>\<open>chunks.filter(Boolean).length\<close>: holes are skipped, every buffer is truthy.\<close>

definition populated :: "'a option list \<Rightarrow> nat" where
  "populated xs = length (filter (\<lambda>c. c \<noteq> None) xs)"

text \<open>\<open>Buffer.concat\<close> throws on a hole.\<close>

fun bufferConcat :: "buffer option list \<Rightarrow> error + buffer" where
  "bufferConcat [] = Inr []"
| "bufferConcat (None # xs) = Inl ConcatFailure"
| "bufferConcat (Some b # xs) =
     (case bufferConcat xs of Inl e \<Rightarrow> Inl e | Inr r \<Rightarrow> Inr (b @ r))"

function showNat :: "nat \<Rightarrow> string" where
  "showNat n =
     (if n < 10 then [''0123456789'' ! n]
      else showNat (n div 10) @ [''0123456789'' ! (n mod 10)])"
  by pat_completeness auto
termination
  by (relation "measure id") auto

declare showNat.simps [simp del]

text \<open>\<open>fileName.replace(/[^a-zA-Z0-9.-]/g, '_')\<close>\<close>

definition sanitize :: "string \<Rightarrow> string" where
  "sanitize s =
     map (\<lambda>c. if c \<in> set ''abcdefghijklmnopqrstuvwxyzABCDEFGHIJKLMNOPQRSTUVWXYZ0123456789.-''
              then c else CHR ''_'') s"

section \<open>The handlers\<close>

definition broadcastUserList :: "state \<Rightarrow> action list" where
  "broadcastUserList st =
     [Emit ToAll (UserList (map (exclude [''password'']) (map userDoc (userModel st))))]"

definition handleConnection :: "date \<Rightarrow> Socket \<Rightarrow> state \<Rightarrow> state \<times> action list" where
  "handleConnection now client st =
     (let name = socketUser client;
          st1 = st\<lparr>connectedUsers := AList.update (socketId client) name (connectedUsers st),
                   typingUsers := (typingUsers st)(name \<mapsto> {})\<rparr>;
          st2 = st1\<lparr>userModel :=
                  findOneAndUpdate name (\<lambda>u. u\<lparr>isOnline := True, lastSeen := now\<rparr>)
                    (userModel st1)\<rparr>
      in (st2, broadcastUserList st2))"

text \<open>\<open>if (username)\<close>: an absent entry and the empty name are both falsy.\<close>

definition handleDisconnect :: "date \<Rightarrow> Socket \<Rightarrow> state \<Rightarrow> state \<times> action list" where
  "handleDisconnect now client st =
     (case map_of (connectedUsers st) (socketId client) of
        None \<Rightarrow> (st, [])
      | Some name \<Rightarrow>
          if name = [] then (st, [])
          else
            (let st1 = st\<lparr>userModel :=
                         findOneAndUpdate name (\<lambda>u. u\<lparr>isOnline := False, lastSeen := now\<rparr>)
                           (userModel st)\<rparr>;
                 st2 = st1\<lparr>connectedUsers := AList.delete (socketId client) (connectedUsers st1),
                          typingUsers := (typingUsers st1)(name := None)\<rparr>
             in (st2, broadcastUserList st2)))"

definition handleJoinRoom :: "Socket \<Rightarrow> string \<Rightarrow> state \<Rightarrow> state \<times> action list" where
  "handleJoinRoom client room st = (st, [Join (socketId client) room])"

definition handleLeaveRoom :: "Socket \<Rightarrow> string \<Rightarrow> state \<Rightarrow> state \<times> action list" where
  "handleLeaveRoom client room st = (st, [Leave (socketId client) room])"

text \<open>The validators of the room messages are not among the sources; this save succeeds.\<close>

definition handleMessage :: "Socket \<Rightarrow> string \<Rightarrow> string \<Rightarrow> state \<Rightarrow> state \<times> action list" where
  "handleMessage client room text st =
     (let message = \<lparr>rm_id = newObjectId (map rm_id (messageModel st)),
                     rm_sender = socketUser client, rm_content = text, rm_room = room\<rparr>
      in (st\<lparr>messageModel := messageModel st @ [message]\<rparr>,
          [Emit (ToRoom room) (NewMessage message)]))"

definition handleTyping :: "Socket \<Rightarrow> string \<Rightarrow> state \<Rightarrow> state \<times> action list" where
  "handleTyping client rcv st =
     (let snd_name = socketUser client;
          tu1 = (if typingUsers st snd_name = None then (typingUsers st)(snd_name \<mapsto> {})
                 else typingUsers st);
          tu2 = (case tu1 snd_name of
                   None \<Rightarrow> tu1
                 | Some typingSet \<Rightarrow> tu1(snd_name \<mapsto> insert rcv typingSet));
          st1 = st\<lparr>typingUsers := tu2\<rparr>
      in (st1,
          case findSocket (connectedUsers st1) rcv of
            None \<Rightarrow> []
          | Some receiverSocket \<Rightarrow> [Emit (ToRoom receiverSocket) (UserTyping snd_name)]))"

definition handleStopTyping :: "Socket \<Rightarrow> string \<Rightarrow> state \<Rightarrow> state \<times> action list" where
  "handleStopTyping client rcv st =
     (let snd_name = socketUser client;
          tu1 = (case typingUsers st snd_name of
                   None \<Rightarrow> typingUsers st
                 | Some typingSet \<Rightarrow> (typingUsers st)(snd_name \<mapsto> typingSet - {rcv}));
          st1 = st\<lparr>typingUsers := tu1\<rparr>
      in (st1,
          case findSocket (connectedUsers st1) rcv of
            None \<Rightarrow> []
          | Some receiverSocket \<Rightarrow> [Emit (ToRoom receiverSocket) (UserStoppedTyping snd_name)]))"

text \<open>The two assignments \<open>message.isDelivered = true; message.deliveredAt = new Date()\<close>.\<close>

definition markDelivered :: "date \<Rightarrow> PrivateMessage \<Rightarrow> PrivateMessage" where
  "markDelivered t d = d\<lparr>isDelivered := True, deliveredAt := t\<rparr>"

text \<open>
  \<open>handlePrivateMessage\<close> has no \<open>catch\<close>: when the first save throws, nothing has been
  stored or emitted. The receiver is sent the message as it is before the delivery flag is
  set, the sender the message as it is after.
\<close>

definition handlePrivateMessage ::
  "env \<Rightarrow> date \<Rightarrow> Socket \<Rightarrow> string \<Rightarrow> string \<Rightarrow> state \<Rightarrow> state \<times> action list" where
  "handlePrivateMessage e now client rcv text st =
     (let message = (newPrivateMessage (newObjectId (map msg_id (privateMessageModel st))) now)
                      \<lparr>sender := socketUser client, receiver := rcv, content := text,
                       isDelivered := False, isRead := False\<rparr>
      in case save message (privateMessageModel st) of
           Inl err \<Rightarrow> (st, [])
         | Inr ms1 \<Rightarrow>
             (let st1 = st\<lparr>privateMessageModel := ms1\<rparr>
              in case findSocket (connectedUsers st1) rcv of
                   None \<Rightarrow>
                     (let (st2, out2) = handleStopTyping client rcv st1
                      in (st2, [Emit (ToClient (socketId client)) (NewPrivateMessage message)] @ out2))
                 | Some receiverSocket \<Rightarrow>
                     (let delivered = markDelivered (later e now)
                      in case saveModified message delivered (privateMessageModel st1) of
                           Inl err \<Rightarrow>
                             (st1, [Emit (ToRoom receiverSocket) (NewPrivateMessage message)])
                         | Inr ms2 \<Rightarrow>
                             (let st2 = st1\<lparr>privateMessageModel := ms2\<rparr>;
                                  (st3, out3) = handleStopTyping client rcv st2
                              in (st3,
                                  [Emit (ToRoom receiverSocket) (NewPrivateMessage message),
                                   Emit (ToClient (socketId client))
                                     (MessageDelivered (msg_id message)),
                                   Emit (ToClient (socketId client))
                                     (NewPrivateMessage (delivered message))] @ out3)))))"

definition handleMarkMessageAsRead ::
  "date \<Rightarrow> Socket \<Rightarrow> nat \<Rightarrow> state \<Rightarrow> state \<times> action list" where
  "handleMarkMessageAsRead now client messageId st =
     (case findById messageId (privateMessageModel st) of
        None \<Rightarrow> (st, [])
      | Some message \<Rightarrow>
          if receiver message = socketUser client
          then
            (let markRead = (\<lambda>d. d\<lparr>isRead := True, readAt := Some now\<rparr>)
             in case saveModified message markRead (privateMessageModel st) of
                  Inl err \<Rightarrow> (st, [])
                | Inr ms \<Rightarrow>
                    (let st1 = st\<lparr>privateMessageModel := ms\<rparr>
                     in (st1,
                         case findSocket (connectedUsers st1) (sender message) of
                           None \<Rightarrow> []
                         | Some senderSocket \<Rightarrow>
                             [Emit (ToRoom senderSocket) (MessageRead (msg_id message) now)])))
          else (st, []))"

text \<open>
  The query of \<open>handleGetPrivateMessages\<close> sorts by \<open>timestamp\<close>; documents with equal
  timestamps keep the order of the collection.
\<close>

definition conversation :: "string \<Rightarrow> string \<Rightarrow> PrivateMessage list \<Rightarrow> PrivateMessage list" where
  "conversation me otherUser ms =
     sort_key timestamp
       (filter (\<lambda>m. (sender m = me \<and> receiver m = otherUser)
                  \<or> (sender m = otherUser \<and> receiver m = me)) ms)"

definition notifySenders :: "(string \<times> string) list \<Rightarrow> PrivateMessage list \<Rightarrow> action list" where
  "notifySenders cu unreadMessages =
     concat (map (\<lambda>msg. case findSocket cu (sender msg) of
                          None \<Rightarrow> []
                        | Some senderSocket \<Rightarrow>
                            [Emit (ToRoom senderSocket) (MessageDelivered (msg_id msg))])
                 unreadMessages)"

definition handleGetPrivateMessages ::
  "date \<Rightarrow> Socket \<Rightarrow> string \<Rightarrow> state \<Rightarrow> state \<times> action list" where
  "handleGetPrivateMessages now client otherUser st =
     (let messages = conversation (socketUser client) otherUser (privateMessageModel st);
          unreadMessages =
            filter (\<lambda>msg. \<not> isDelivered msg \<and> receiver msg = socketUser client) messages
      in if length unreadMessages > 0
         then
           (let st1 = st\<lparr>privateMessageModel :=
                        updateMany (map msg_id unreadMessages)
                          (\<lambda>d. d\<lparr>isDelivered := True, deliveredAt := now\<rparr>)
                          (privateMessageModel st)\<rparr>
            in (st1,
                notifySenders (connectedUsers st1) unreadMessages
                  @ [Emit (ToClient (socketId client)) (PrivateMessages messages)]))
         else (st, [Emit (ToClient (socketId client)) (PrivateMessages messages)]))"

text \<open>A pattern that the store rejects makes the query throw before anything is emitted.\<close>

definition handleSearchUsers :: "env \<Rightarrow> Socket \<Rightarrow> string \<Rightarrow> state \<Rightarrow> state \<times> action list" where
  "handleSearchUsers e client query st =
     (case regexI e query of
        None \<Rightarrow> (st, [])
      | Some matches \<Rightarrow>
          (st, [Emit (ToClient (socketId client))
                  (SearchResults
                     (map (exclude [''password''])
                        (map userDoc (filter (\<lambda>u. matches (username u)) (userModel st)))))]))"

definition handleStartFileUpload ::
  "date \<Rightarrow> Socket \<Rightarrow> StartPayload \<Rightarrow> string \<Rightarrow> state \<Rightarrow> state \<times> action list" where
  "handleStartFileUpload now client payload rnd st =
     (let uploadId = showNat now @ ''-'' @ rnd
      in (st\<lparr>tempUploads :=
               (tempUploads st)(uploadId \<mapsto> \<lparr>chunks = [], totalChunks = sp_totalChunks payload\<rparr>)\<rparr>,
          [Emit (ToClient (socketId client)) (UploadStarted uploadId)]))"

text \<open>The document that the completion of an upload makes, for the file stored under \<open>name\<close>.\<close>

definition fileMessage :: "nat \<Rightarrow> date \<Rightarrow> Socket \<Rightarrow> ChunkPayload \<Rightarrow> string \<Rightarrow> PrivateMessage" where
  "fileMessage i now client payload name =
     (newPrivateMessage i now)
       \<lparr>sender := socketUser client,
        receiver := p_receiver payload,
        content := ''Shared a file: '' @ p_fileName payload,
        fileUrl := Some (''/uploads/'' @ name),
        fileName := Some (p_fileName payload),
        fileType := Some (p_fileType payload),
        fileSize := Some (p_fileSize payload)\<rparr>"

text \<open>
  \<open>handleUploadChunk\<close>, in the pieces between its \<open>await\<close>s. A piece ends in one of
  three ways: it throws (\<open>Inl\<close>), it reaches the end of the \<open>try\<close> block (\<open>Inr None\<close>),
  or it is suspended at an \<open>await\<close> (\<open>Inr (Some s)\<close>), where \<open>s\<close> says at which one and
  holds what the rest of the handler needs.
\<close>

datatype suspended = AtWrite string | AtSave PrivateMessage | AtDeliveredSave PrivateMessage

type_synonym progress = "state \<times> action list \<times> (error + suspended option)"

text \<open>
  From the start of the \<open>try\<close> block to \<open>await fs.promises.writeFile\<close>. The chunk is
  stored in the session object itself, so it stays stored when \<open>Buffer.concat\<close> or a
  later piece throws.
\<close>

definition uploadChunkBegin :: "env \<Rightarrow> date \<Rightarrow> Socket \<Rightarrow> ChunkPayload \<Rightarrow> state \<Rightarrow> progress" where
  "uploadChunkBegin e now client payload st =
     (case tempUploads st (p_uploadId payload) of
        None \<Rightarrow> (st, [], Inl SessionNotFound)
      | Some upl \<Rightarrow>
          (case decodeChunk e (p_chunk payload) of
             Inl err \<Rightarrow> (st, [], Inl err)
           | Inr chunkData \<Rightarrow>
               (let upl' = upl\<lparr>chunks := arraySet (chunks upl) (p_chunkIndex payload) chunkData\<rparr>;
                    st1 = st\<lparr>tempUploads := (tempUploads st)(p_uploadId payload \<mapsto> upl')\<rparr>
                in if int (populated (chunks upl')) = totalChunks upl'
                   then
                     (case bufferConcat (chunks upl') of
                        Inl err \<Rightarrow> (st1, [], Inl err)
                      | Inr fileData \<Rightarrow>
                          (let safeFileName = showNat now @ ''-'' @ sanitize (p_fileName payload)
                           in (st1\<lparr>uploadsDir := (uploadsDir st1)(safeFileName \<mapsto> fileData)\<rparr>,
                               [], Inr (Some (AtWrite safeFileName)))))
                   else (st1,
                         [Emit (ToClient (socketId client))
                            (ChunkReceived (p_uploadId payload) (p_chunkIndex payload))],
                         Inr None))))"

text \<open>
  From one \<open>await\<close> to the next, or to the end of the \<open>try\<close> block: after the write the
  file message is made and saved; after that save the receiver is looked up and, if
  found, sent the message, and the message is saved as delivered; at the end come the
  notifications to the caller, the removal of the session and the acknowledgement of the
  chunk.
\<close>

definition uploadChunkResume ::
  "env \<Rightarrow> date \<Rightarrow> Socket \<Rightarrow> ChunkPayload \<Rightarrow> suspended \<Rightarrow> state \<Rightarrow> progress" where
  "uploadChunkResume e now client payload s st =
     (let ack = Emit (ToClient (socketId client))
                  (ChunkReceived (p_uploadId payload) (p_chunkIndex payload));
          cleaned = st\<lparr>tempUploads := (tempUploads st)(p_uploadId payload := None)\<rparr>
      in case s of
           AtWrite safeFileName \<Rightarrow>
             (let message =
                    fileMessage (newObjectId (map msg_id (privateMessageModel st))) now
                      client payload safeFileName
              in case save message (privateMessageModel st) of
                   Inl err \<Rightarrow> (st, [], Inl err)
                 | Inr ms \<Rightarrow> (st\<lparr>privateMessageModel := ms\<rparr>, [], Inr (Some (AtSave message))))
         | AtSave message \<Rightarrow>
             (case findSocket (connectedUsers st) (p_receiver payload) of
                None \<Rightarrow>
                  (cleaned,
                   [Emit (ToClient (socketId client)) (NewPrivateMessage message), ack],
                   Inr None)
              | Some receiverSocket \<Rightarrow>
                  (let delivered = markDelivered (later e now)
                   in case saveModified message delivered (privateMessageModel st) of
                        Inl err \<Rightarrow>
                          (st, [Emit (ToRoom receiverSocket) (NewPrivateMessage message)], Inl err)
                      | Inr ms \<Rightarrow>
                          (st\<lparr>privateMessageModel := ms\<rparr>,
                           [Emit (ToRoom receiverSocket) (NewPrivateMessage message)],
                           Inr (Some (AtDeliveredSave (delivered message))))))
         | AtDeliveredSave message \<Rightarrow>
             (cleaned,
              [Emit (ToClient (socketId client)) (MessageDelivered (msg_id message)),
               Emit (ToClient (socketId client)) (NewPrivateMessage message), ack],
              Inr None))"

text \<open>
  The rest of a suspended handler when nothing else is handled before it ends. There
  are three \<open>await\<close>s, so three pieces reach the end.
\<close>

definition resumeToEnd ::
  "env \<Rightarrow> date \<Rightarrow> Socket \<Rightarrow> ChunkPayload \<Rightarrow> suspended \<Rightarrow> state \<Rightarrow> progress" where
  "resumeToEnd e now client payload s st =
     (case uploadChunkResume e now client payload s st of
        (st1, out1, Inr (Some s1)) \<Rightarrow>
          (case uploadChunkResume e now client payload s1 st1 of
             (st2, out2, Inr (Some s2)) \<Rightarrow>
               (case uploadChunkResume e now client payload s2 st2 of
                  (st3, out3, r3) \<Rightarrow> (st3, out1 @ out2 @ out3, r3))
           | (st2, out2, r2) \<Rightarrow> (st2, out1 @ out2, r2))
      | r \<Rightarrow> r)"

text \<open>
  What follows the first piece: the \<open>catch\<close> block answers a throw with \<open>uploadError\<close>,
  a suspended handler runs to its end (its throw is caught the same way).
\<close>

definition settle ::
  "env \<Rightarrow> date \<Rightarrow> Socket \<Rightarrow> ChunkPayload \<Rightarrow> error + suspended option \<Rightarrow> state
     \<Rightarrow> state \<times> action list" where
  "settle e now client payload r st =
     (let failed = Emit (ToClient (socketId client))
                     (UploadError ''Failed to upload chunk'' (Some (p_uploadId payload)))
      in case r of
           Inl err \<Rightarrow> (st, [failed])
         | Inr None \<Rightarrow> (st, [])
         | Inr (Some s) \<Rightarrow>
             (case resumeToEnd e now client payload s st of
                (st', out, Inl err) \<Rightarrow> (st', out @ [failed])
              | (st', out, Inr _) \<Rightarrow> (st', out)))"

definition handleUploadChunk ::
  "env \<Rightarrow> date \<Rightarrow> Socket \<Rightarrow> ChunkPayload \<Rightarrow> state \<Rightarrow> state \<times> action list" where
  "handleUploadChunk e now client payload st =
     (case uploadChunkBegin e now client payload st of
        (st1, out1, r) \<Rightarrow>
          (case settle e now client payload r st1 of
             (st2, out2) \<Rightarrow> (st2, out1 @ out2)))"


definition handleCancelUpload :: "Socket \<Rightarrow> string \<Rightarrow> state \<Rightarrow> state \<times> action list" where
  "handleCancelUpload client uploadId st =
     (st\<lparr>tempUploads := (tempUploads st)(uploadId := None)\<rparr>,
      [Emit (ToClient (socketId client)) (UploadCancelled uploadId)])"

section \<open>The dispatcher\<close>

fun step :: "env \<Rightarrow> state \<Rightarrow> date \<times> event \<Rightarrow> state \<times> action list" where
  "step e st (now, Connection client) = handleConnection now client st"
| "step e st (now, Disconnect client) = handleDisconnect now client st"
| "step e st (now, JoinRoom client room) = handleJoinRoom client room st"
| "step e st (now, LeaveRoom client room) = handleLeaveRoom client room st"
| "step e st (now, SendMessage client room text) = handleMessage client room text st"
| "step e st (now, SendPrivateMessage client rcv text) = handlePrivateMessage e now client rcv text st"
| "step e st (now, MarkMessageAsRead client messageId) = handleMarkMessageAsRead now client messageId st"
| "step e st (now, GetPrivateMessages client otherUser) = handleGetPrivateMessages now client otherUser st"
| "step e st (now, SearchUsers client query) = handleSearchUsers e client query st"
| "step e st (now, Typing client rcv) = handleTyping client rcv st"
| "step e st (now, StopTyping client rcv) = handleStopTyping client rcv st"
| "step e st (now, StartFileUpload client payload rnd) = handleStartFileUpload now client payload rnd st"
| "step e st (now, UploadChunk client payload) = handleUploadChunk e now client payload st"
| "step e st (now, CancelUpload client uploadId) = handleCancelUpload client uploadId st"

text \<open>A run handles the events one after the other and collects the actions.\<close>

fun run :: "env \<Rightarrow> state \<Rightarrow> (date \<times> event) list \<Rightarrow> state \<times> action list" where
  "run e st [] = (st, [])"
| "run e st (ev # evs) =
     (let (st1, out1) = step e st ev; (st2, out2) = run e st1 evs in (st2, out1 @ out2))"

text \<open>The gateway as constructed: empty registries over whatever the collaborators hold.\<close>

definition initial ::
  "RoomMessage list \<Rightarrow> PrivateMessage list \<Rightarrow> User list \<Rightarrow> (string \<rightharpoonup> buffer) \<Rightarrow> state" where
  "initial rms pms us dir =
     \<lparr>connectedUsers = [], typingUsers = Map.empty, tempUploads = Map.empty,
      messageModel = rms, privateMessageModel = pms, userModel = us, uploadsDir = dir\<rparr>"

section \<open>Notions used in the statements\<close>

text \<open>The recipients a sender is recorded as typing to (none when the sender has no entry).\<close>

definition typingTo :: "state \<Rightarrow> string \<Rightarrow> string set" where
  "typingTo st s = (case typingUsers st s of None \<Rightarrow> {} | Some S \<Rightarrow> S)"

text \<open>
  One stored message before and after: the same identifier, and a flag that was set is
  still set. A collection before and after: nothing removed, every position kept.
\<close>

definition keeps :: "PrivateMessage \<Rightarrow> PrivateMessage \<Rightarrow> bool" where
  "keeps m m' \<longleftrightarrow>
     msg_id m' = msg_id m \<and> (isDelivered m \<longrightarrow> isDelivered m') \<and> (isRead m \<longrightarrow> isRead m')"

definition latched :: "PrivateMessage list \<Rightarrow> PrivateMessage list \<Rightarrow> bool" where
  "latched ms ms' \<longleftrightarrow> length ms \<le> length ms' \<and> (\<forall>k<length ms. keeps (ms ! k) (ms' ! k))"

text \<open>
  The number of places in a sequence of observations of a flag where it goes from unset
  to set, and the states a run goes through, the first one included.
\<close>

fun flips :: "bool list \<Rightarrow> nat" where
  "flips (a # b # bs) = (if \<not> a \<and> b then 1 else 0) + flips (b # bs)"
| "flips _ = 0"

fun history :: "env \<Rightarrow> state \<Rightarrow> (date \<times> event) list \<Rightarrow> state list" where
  "history e st [] = [st]"
| "history e st (ev # evs) = st # history e (fst (step e st ev)) evs"

text \<open>The indices of an array that hold an element.\<close>

definition filled :: "'a option list \<Rightarrow> nat set" where
  "filled xs = {k. k < length xs \<and> xs ! k \<noteq> None}"

text \<open>
  A run of chunk submissions: each submission is the time, the submitting client and the
  payload. A completion shows in the actions as the echo of the file message to the
  submitting client, which no other branch of the chunk handler emits.
\<close>

fun isEcho :: "action \<Rightarrow> bool" where
  "isEcho (Emit (ToClient _) (NewPrivateMessage _)) = True"
| "isEcho _ = False"

definition completions :: "action list \<Rightarrow> nat" where
  "completions out = length (filter isEcho out)"

definition chunkEvents :: "(date \<times> Socket \<times> ChunkPayload) list \<Rightarrow> (date \<times> event) list" where
  "chunkEvents subs = map (\<lambda>(now, c, p). (now, UploadChunk c p)) subs"

definition indices :: "(date \<times> Socket \<times> ChunkPayload) list \<Rightarrow> int list" where
  "indices subs = map (\<lambda>(now, c, p). p_chunkIndex p) subs"


text \<open>An event that creates the upload session with the given identifier.\<close>

fun startsUpload :: "string \<Rightarrow> date \<times> event \<Rightarrow> bool" where
  "startsUpload uid (now, StartFileUpload c payload rnd) = (showNat now @ ''-'' @ rnd = uid)"
| "startsUpload uid _ = False"



definition emptyDecoder :: env where
  "emptyDecoder = \<lparr>base64 = (\<lambda>_. []), regexI = (\<lambda>_. None), later = Suc\<rparr>"

section \<open>Basic facts about runs\<close>

lemma snd_run_Cons:
  "snd (run e st (ev # evs)) = snd (step e st ev) @ snd (run e (fst (step e st ev)) evs)"
  by (simp add: split_beta Let_def)

lemma fst_run_Cons:
  "fst (run e st (ev # evs)) = fst (run e (fst (step e st ev)) evs)"
  by (simp add: split_beta Let_def)

section \<open>Lists, collections and the socket registry\<close>

lemma find_Some_mem: "List.find P xs = Some x \<Longrightarrow> x \<in> set xs \<and> P x"
  by (induction xs) (auto split: if_splits)

lemma find_append_first:
  "List.find P xs = Some x \<Longrightarrow> List.find P (xs @ ys) = Some x"
  by (induction xs) (auto split: if_splits)

lemma update_fresh_append: "k \<notin> fst ` set al \<Longrightarrow> AList.update k v al = al @ [(k, v)]"
  by (induction al) auto

lemma find_None_all: "(List.find P xs = None) = (\<forall>x\<in>set xs. \<not> P x)"
  by (induction xs) auto

lemma find_updateFirst_same:
  "(\<And>x. P x \<Longrightarrow> P (f x)) \<Longrightarrow> List.find P (updateFirst P f xs) = map_option f (List.find P xs)"
  by (induction xs) auto

lemma find_updateFirst_other:
  "(\<And>x. P x \<Longrightarrow> \<not> Q x \<and> \<not> Q (f x)) \<Longrightarrow> List.find Q (updateFirst P f xs) = List.find Q xs"
  by (induction xs) auto

lemma length_updateFirst [simp]: "length (updateFirst P f xs) = length xs"
  by (induction xs) auto

lemma map_updateFirst_cong:
  "(\<And>x. P x \<Longrightarrow> g (f x) = g x) \<Longrightarrow> map g (updateFirst P f xs) = map g xs"
  by (induction xs) auto

lemma findById_Some: "findById i ms = Some m \<Longrightarrow> m \<in> set ms \<and> msg_id m = i"
  unfolding findById_def by (rule find_Some_mem)

lemma fold_max_ge: "a \<le> fold max ids (a::nat) \<and> (\<forall>x\<in>set ids. x \<le> fold max ids a)"
proof (induction ids arbitrary: a)
  case Nil
  show ?case by simp
next
  case (Cons y ys)
  from Cons.IH [of "max y a"] show ?case by auto
qed

lemma newObjectId_fresh: "newObjectId ids \<notin> set ids"
proof
  assume "newObjectId ids \<in> set ids"
  then have "newObjectId ids \<le> fold max ids 0" using fold_max_ge [of 0 ids] by blast
  then show False by (simp add: newObjectId_def)
qed

lemma newObjectId_fresh_map [simp]: "newObjectId (map f xs) \<notin> f ` set xs"
  using newObjectId_fresh [of "map f xs"] by simp

lemma msg_id_newPrivateMessage [simp]: "msg_id (newPrivateMessage i now) = i"
  by (simp add: newPrivateMessage_def)

lemma updateFirst_last:
  "msg_id m \<notin> msg_id ` set ms \<Longrightarrow>
   updateFirst (\<lambda>d. msg_id d = msg_id m) f (ms @ [m]) = ms @ [f m]"
  by (induction ms) (auto simp: image_iff)

lemma storable_markDelivered [simp]: "storable (markDelivered t m) = storable m"
  by (simp add: storable_def markDelivered_def)

lemma msg_id_markDelivered [simp]: "msg_id (markDelivered t m) = msg_id m"
  by (simp add: markDelivered_def)

lemma msg_id_fileMessage [simp]: "msg_id (fileMessage i now c p name) = i"
  by (simp add: fileMessage_def)

lemma storable_fileMessage [simp]:
  "storable (fileMessage i now c p name) = (socketUser c \<noteq> [] \<and> p_receiver p \<noteq> [])"
  by (simp add: fileMessage_def storable_def)

lemma receiver_fileMessage [simp]: "receiver (fileMessage i now c p name) = p_receiver p"
  by (simp add: fileMessage_def)

section \<open>The rest of a suspended chunk handler\<close>

lemma resumeToEnd_AtDeliveredSave:
  "resumeToEnd e now c p (AtDeliveredSave m) st =
     (st\<lparr>tempUploads := (tempUploads st)(p_uploadId p := None)\<rparr>,
      [Emit (ToClient (socketId c)) (MessageDelivered (msg_id m)),
       Emit (ToClient (socketId c)) (NewPrivateMessage m),
       Emit (ToClient (socketId c)) (ChunkReceived (p_uploadId p) (p_chunkIndex p))],
      Inr None)"
  by (simp add: resumeToEnd_def uploadChunkResume_def Let_def)

lemma resumeToEnd_AtSave:
  "resumeToEnd e now c p (AtSave m) st =
     (case findSocket (connectedUsers st) (p_receiver p) of
        None \<Rightarrow>
          (st\<lparr>tempUploads := (tempUploads st)(p_uploadId p := None)\<rparr>,
           [Emit (ToClient (socketId c)) (NewPrivateMessage m),
            Emit (ToClient (socketId c)) (ChunkReceived (p_uploadId p) (p_chunkIndex p))],
           Inr None)
      | Some rs \<Rightarrow>
          (case saveModified m (markDelivered (later e now)) (privateMessageModel st) of
             Inl err \<Rightarrow> (st, [Emit (ToRoom rs) (NewPrivateMessage m)], Inl err)
           | Inr ms \<Rightarrow>
               (st\<lparr>privateMessageModel := ms,
                   tempUploads := (tempUploads st)(p_uploadId p := None)\<rparr>,
                [Emit (ToRoom rs) (NewPrivateMessage m),
                 Emit (ToClient (socketId c)) (MessageDelivered (msg_id m)),
                 Emit (ToClient (socketId c)) (NewPrivateMessage (markDelivered (later e now) m)),
                 Emit (ToClient (socketId c)) (ChunkReceived (p_uploadId p) (p_chunkIndex p))],
                Inr None)))"
  by (simp add: resumeToEnd_def uploadChunkResume_def Let_def split: option.splits sum.splits)

lemma resumeToEnd_AtWrite:
  "resumeToEnd e now c p (AtWrite name) st =
     (case save (fileMessage (newObjectId (map msg_id (privateMessageModel st))) now c p name)
             (privateMessageModel st) of
        Inl err \<Rightarrow> (st, [], Inl err)
      | Inr ms \<Rightarrow>
          resumeToEnd e now c p
            (AtSave (fileMessage (newObjectId (map msg_id (privateMessageModel st))) now c p name))
            (st\<lparr>privateMessageModel := ms\<rparr>))"
  by (simp add: resumeToEnd_def uploadChunkResume_def Let_def split: option.splits sum.splits)

lemma settle_Inl:
  "settle e now c p (Inl err) st
     = (st, [Emit (ToClient (socketId c)) (UploadError ''Failed to upload chunk'' (Some (p_uploadId p)))])"
  by (simp add: settle_def)

lemma settle_None: "settle e now c p (Inr None) st = (st, [])"
  by (simp add: settle_def)

lemma settle_Some:
  "settle e now c p (Inr (Some s)) st
     = (fst (resumeToEnd e now c p s st),
        fst (snd (resumeToEnd e now c p s st))
          @ (case snd (snd (resumeToEnd e now c p s st)) of
               Inl err \<Rightarrow> [Emit (ToClient (socketId c))
                               (UploadError ''Failed to upload chunk'' (Some (p_uploadId p)))]
             | Inr _ \<Rightarrow> []))"
  by (simp add: settle_def Let_def split: prod.splits sum.splits)

lemma handleUploadChunk_pieces:
  "handleUploadChunk e now c p st
     = (fst (settle e now c p (snd (snd (uploadChunkBegin e now c p st)))
               (fst (uploadChunkBegin e now c p st))),
        fst (snd (uploadChunkBegin e now c p st))
          @ snd (settle e now c p (snd (snd (uploadChunkBegin e now c p st)))
                   (fst (uploadChunkBegin e now c p st))))"
  by (simp add: handleUploadChunk_def split_beta)

section \<open>What each handler leaves alone\<close>

lemma resumeToEnd_frame:
  "connectedUsers (fst (resumeToEnd e now c p s st)) = connectedUsers st
   \<and> typingUsers (fst (resumeToEnd e now c p s st)) = typingUsers st
   \<and> userModel (fst (resumeToEnd e now c p s st)) = userModel st
   \<and> (uid \<noteq> p_uploadId p \<longrightarrow>
        tempUploads (fst (resumeToEnd e now c p s st)) uid = tempUploads st uid)
   \<and> (tempUploads st uid = None \<longrightarrow> tempUploads (fst (resumeToEnd e now c p s st)) uid = None)"
proof (cases s)
  case (AtWrite name)
  then show ?thesis
    by (simp add: resumeToEnd_AtWrite resumeToEnd_AtSave split: option.splits sum.splits)
next
  case (AtSave m)
  then show ?thesis
    by (simp add: resumeToEnd_AtSave split: option.splits sum.splits)
next
  case (AtDeliveredSave m)
  then show ?thesis by (simp add: resumeToEnd_AtDeliveredSave)
qed

lemma uploadChunkBegin_frame:
  "connectedUsers (fst (uploadChunkBegin e now c p st)) = connectedUsers st
   \<and> typingUsers (fst (uploadChunkBegin e now c p st)) = typingUsers st
   \<and> userModel (fst (uploadChunkBegin e now c p st)) = userModel st
   \<and> privateMessageModel (fst (uploadChunkBegin e now c p st)) = privateMessageModel st
   \<and> (uid \<noteq> p_uploadId p \<longrightarrow>
        tempUploads (fst (uploadChunkBegin e now c p st)) uid = tempUploads st uid)
   \<and> (tempUploads st uid = None \<longrightarrow> tempUploads (fst (uploadChunkBegin e now c p st)) uid = None)"
  by (simp add: uploadChunkBegin_def Let_def split: option.splits sum.splits)

lemma settle_frame:
  "connectedUsers (fst (settle e now c p r st)) = connectedUsers st
   \<and> typingUsers (fst (settle e now c p r st)) = typingUsers st
   \<and> userModel (fst (settle e now c p r st)) = userModel st
   \<and> (uid \<noteq> p_uploadId p \<longrightarrow> tempUploads (fst (settle e now c p r st)) uid = tempUploads st uid)
   \<and> (tempUploads st uid = None \<longrightarrow> tempUploads (fst (settle e now c p r st)) uid = None)"
proof (cases r)
  case (Inl err)
  then show ?thesis by (simp add: settle_def)
next
  case (Inr res)
  show ?thesis
  proof (cases res)
    case None
    with Inr show ?thesis by (simp add: settle_def)
  next
    case (Some s)
    with Inr have "fst (settle e now c p r st) = fst (resumeToEnd e now c p s st)"
      by (simp add: settle_def Let_def split: prod.splits sum.splits)
    then show ?thesis using resumeToEnd_frame [of e now c p s st uid] by simp
  qed
qed

lemma handleUploadChunk_fst:
  "fst (handleUploadChunk e now c p st)
     = fst (settle e now c p (snd (snd (uploadChunkBegin e now c p st)))
              (fst (uploadChunkBegin e now c p st)))"
  by (simp add: handleUploadChunk_def split: prod.splits)

lemma handleUploadChunk_frame:
  "connectedUsers (fst (handleUploadChunk e now c p st)) = connectedUsers st
   \<and> typingUsers (fst (handleUploadChunk e now c p st)) = typingUsers st
   \<and> userModel (fst (handleUploadChunk e now c p st)) = userModel st
   \<and> (uid \<noteq> p_uploadId p \<longrightarrow> tempUploads (fst (handleUploadChunk e now c p st)) uid = tempUploads st uid)
   \<and> (tempUploads st uid = None \<longrightarrow> tempUploads (fst (handleUploadChunk e now c p st)) uid = None)"
  using settle_frame [of e now c p "snd (snd (uploadChunkBegin e now c p st))"
                         "fst (uploadChunkBegin e now c p st)" uid]
        uploadChunkBegin_frame [of e now c p st uid]
  by (simp add: handleUploadChunk_fst)

lemma handlePrivateMessage_refused:
  "socketUser c = [] \<or> r = [] \<or> body = [] \<Longrightarrow> handlePrivateMessage e now c r body st = (st, [])"
  by (auto simp: handlePrivateMessage_def save_def storable_def Let_def)

lemma handlePrivateMessage_stored:
  assumes "socketUser c \<noteq> []" and "r \<noteq> []" and "body \<noteq> []"
  shows "handlePrivateMessage e now c r body st =
     (let m = (newPrivateMessage (newObjectId (map msg_id (privateMessageModel st))) now)
                \<lparr>sender := socketUser c, receiver := r, content := body\<rparr>
      in case findSocket (connectedUsers st) r of
           None \<Rightarrow>
             (fst (handleStopTyping c r (st\<lparr>privateMessageModel := privateMessageModel st @ [m]\<rparr>)),
              Emit (ToClient (socketId c)) (NewPrivateMessage m)
                # snd (handleStopTyping c r st))
         | Some rs \<Rightarrow>
             (fst (handleStopTyping c r
                     (st\<lparr>privateMessageModel :=
                           privateMessageModel st @ [markDelivered (later e now) m]\<rparr>)),
              [Emit (ToRoom rs) (NewPrivateMessage m),
               Emit (ToClient (socketId c)) (MessageDelivered (msg_id m)),
               Emit (ToClient (socketId c)) (NewPrivateMessage (markDelivered (later e now) m))]
                @ snd (handleStopTyping c r st)))"
proof -
  let ?m = "(newPrivateMessage (newObjectId (map msg_id (privateMessageModel st))) now)
                \<lparr>sender := socketUser c, receiver := r, content := body\<rparr>"
  have eq: "(newPrivateMessage (newObjectId (map msg_id (privateMessageModel st))) now)
                \<lparr>sender := socketUser c, receiver := r, content := body,
                 isDelivered := False, isRead := False\<rparr> = ?m"
    by (simp add: newPrivateMessage_def)
  have st: "storable ?m" using assms by (simp add: storable_def)
  have fresh: "msg_id ?m \<notin> msg_id ` set (privateMessageModel st)" by simp
  have upd: "saveModified ?m (markDelivered t) (privateMessageModel st @ [?m])
               = Inr (privateMessageModel st @ [markDelivered t ?m])" for t
    using st updateFirst_last [OF fresh] by (simp add: saveModified_def)
  have sndStop: "snd (handleStopTyping c r (st\<lparr>privateMessageModel := ms\<rparr>))
                   = snd (handleStopTyping c r st)" for ms
    by (simp add: handleStopTyping_def Let_def)
  show ?thesis
    unfolding handlePrivateMessage_def eq
    using st
    by (simp add: save_def upd Let_def split_beta sndStop split: option.splits)
qed

lemma handlePrivateMessage_frame:
  "connectedUsers (fst (handlePrivateMessage e now c r body st)) = connectedUsers st
   \<and> tempUploads (fst (handlePrivateMessage e now c r body st)) = tempUploads st
   \<and> userModel (fst (handlePrivateMessage e now c r body st)) = userModel st"
proof (cases "socketUser c = [] \<or> r = [] \<or> body = []")
  case True
  then show ?thesis by (simp add: handlePrivateMessage_refused)
next
  case False
  then show ?thesis
    by (simp add: handlePrivateMessage_stored handleStopTyping_def Let_def split: option.splits)
qed

lemma step_connectedUsers:
  "connectedUsers (fst (step e st (now, ev))) =
     (case ev of
        Connection c \<Rightarrow> AList.update (socketId c) (socketUser c) (connectedUsers st)
      | Disconnect c \<Rightarrow>
          (case map_of (connectedUsers st) (socketId c) of
             None \<Rightarrow> connectedUsers st
           | Some name \<Rightarrow> if name = [] then connectedUsers st
                          else AList.delete (socketId c) (connectedUsers st))
      | _ \<Rightarrow> connectedUsers st)"
  by (cases ev)
     (simp_all add: handleConnection_def handleDisconnect_def handleJoinRoom_def
        handleLeaveRoom_def handleMessage_def handlePrivateMessage_frame handleMarkMessageAsRead_def
        handleGetPrivateMessages_def handleSearchUsers_def handleTyping_def handleStopTyping_def
        handleStartFileUpload_def handleCancelUpload_def handleUploadChunk_frame
        Let_def split_beta split: option.splits sum.splits)

lemma step_distinct_sockets:
  "distinct (map fst (connectedUsers st)) \<Longrightarrow>
   distinct (map fst (connectedUsers (fst (step e st ev))))"
  by (cases ev)
     (auto simp: step_connectedUsers distinct_update distinct_delete
           split: event.splits option.splits)

lemma run_distinct_sockets:
  "distinct (map fst (connectedUsers st)) \<Longrightarrow>
   distinct (map fst (connectedUsers (fst (run e st evs))))"
proof (induction evs arbitrary: st)
  case Nil
  then show ?case by simp
next
  case (Cons ev evs)
  then show ?case
    by (simp add: fst_run_Cons step_distinct_sockets del: run.simps)
qed

lemma handleStopTyping_typingTo:
  "typingTo (fst (handleStopTyping c r st)) s
     = (if s = socketUser c then typingTo st s - {r} else typingTo st s)"
  by (simp add: handleStopTyping_def typingTo_def Let_def split: option.splits)

lemma handlePrivateMessage_typingTo:
  "typingTo (fst (handlePrivateMessage e now c r body st)) s
     = (if s = socketUser c \<and> socketUser c \<noteq> [] \<and> r \<noteq> [] \<and> body \<noteq> []
        then typingTo st s - {r} else typingTo st s)"
proof (cases "socketUser c = [] \<or> r = [] \<or> body = []")
  case True
  then show ?thesis by (auto simp: handlePrivateMessage_refused)
next
  case False
  have "typingTo (fst (handleStopTyping c r (st\<lparr>privateMessageModel := ms\<rparr>))) s'
          = (if s' = socketUser c then typingTo st s' - {r} else typingTo st s')" for ms s'
    by (simp add: handleStopTyping_typingTo) (simp add: typingTo_def)
  with False show ?thesis
    by (simp add: handlePrivateMessage_stored Let_def split: option.splits)
qed

lemma handleTyping_typingTo:
  "typingTo (fst (handleTyping c r st)) s
     = (if s = socketUser c then insert r (typingTo st s) else typingTo st s)"
  by (simp add: handleTyping_def typingTo_def Let_def split: option.splits)

lemma step_typingTo_other:
  "typingTo (fst (step e st (now, ev))) s =
     (case ev of
        Connection c \<Rightarrow> if s = socketUser c then {} else typingTo st s
      | Disconnect c \<Rightarrow>
          (case map_of (connectedUsers st) (socketId c) of
             None \<Rightarrow> typingTo st s
           | Some name \<Rightarrow> if name \<noteq> [] \<and> s = name then {} else typingTo st s)
      | SendPrivateMessage c r body \<Rightarrow>
          if s = socketUser c \<and> socketUser c \<noteq> [] \<and> r \<noteq> [] \<and> body \<noteq> []
          then typingTo st s - {r} else typingTo st s
      | Typing c r \<Rightarrow> if s = socketUser c then insert r (typingTo st s) else typingTo st s
      | StopTyping c r \<Rightarrow> if s = socketUser c then typingTo st s - {r} else typingTo st s
      | _ \<Rightarrow> typingTo st s)"
proof (cases ev)
  case (UploadChunk c p)
  then show ?thesis by (simp add: typingTo_def handleUploadChunk_frame)
next
  case (SendPrivateMessage c r body)
  then show ?thesis by (simp add: handlePrivateMessage_typingTo)
next
  case (Typing c r)
  then show ?thesis by (simp add: handleTyping_typingTo)
next
  case (StopTyping c r)
  then show ?thesis by (simp add: handleStopTyping_typingTo)
next
  case (MarkMessageAsRead c i)
  then show ?thesis
    by (simp add: typingTo_def handleMarkMessageAsRead_def Let_def split: option.splits sum.splits)
qed (simp_all add: typingTo_def handleConnection_def handleDisconnect_def handleJoinRoom_def
       handleLeaveRoom_def handleMessage_def
       handleGetPrivateMessages_def handleSearchUsers_def
       handleStartFileUpload_def handleCancelUpload_def Let_def split: option.splits)

lemma findSocket_lookup:
  assumes "distinct (map fst cu)" and "findSocket cu name = Some sid"
  shows "map_of cu sid = Some name"
proof -
  from assms(2) obtain e where e: "List.find (\<lambda>e. snd e = name) cu = Some e" and s: "fst e = sid"
    by (auto simp: findSocket_def split: option.splits if_splits)
  from find_Some_mem [OF e] have "e \<in> set cu" "snd e = name" by simp_all
  with s have "(sid, name) \<in> set cu" by (cases e) simp
  with assms(1) show ?thesis by simp
qed

lemma handlePrivateMessage_last:
  assumes "socketUser c \<noteq> []" and "r \<noteq> []" and "body \<noteq> []"
    and "findSocket (connectedUsers st) r = Some rs"
  shows "last (snd (handlePrivateMessage e now c r body st))
           = Emit (ToRoom rs) (UserStoppedTyping (socketUser c))"
  using assms by (simp add: handlePrivateMessage_stored handleStopTyping_def Let_def)

lemma uploadChunkBegin_no_session:
  "tempUploads st (p_uploadId payload) = None \<Longrightarrow>
   uploadChunkBegin e now c payload st = (st, [], Inl SessionNotFound)"
  by (simp add: uploadChunkBegin_def)

lemma handleUploadChunk_no_session:
  "tempUploads st (p_uploadId payload) = None \<Longrightarrow>
   handleUploadChunk e now c payload st
     = (st, [Emit (ToClient (socketId c))
               (UploadError ''Failed to upload chunk'' (Some (p_uploadId payload)))])"
  by (simp add: handleUploadChunk_def uploadChunkBegin_no_session settle_def)

section \<open>C1: completion of a chunked upload\<close>

subsection \<open>Arrays with holes\<close>

lemma filled_Nil [simp]: "filled [] = {}"
  by (simp add: filled_def)

lemma finite_filled [simp]: "finite (filled xs)"
  by (simp add: filled_def)












lemma split_nonempty [simp]: "split c s \<noteq> []"
  by (induction s) (auto split: list.splits)



subsection \<open>One submission\<close>










lemma completions_append [simp]: "completions (xs @ ys) = completions xs + completions ys"
  by (simp add: completions_def)

lemma chunkEvents_Cons [simp]:
  "chunkEvents ((now, c, p) # subs) = (now, UploadChunk c p) # chunkEvents subs"
  by (simp add: chunkEvents_def)

lemma chunkEvents_Nil [simp]: "chunkEvents [] = []"
  by (simp add: chunkEvents_def)

lemma indices_Cons [simp]: "indices ((now, c, p) # subs) = p_chunkIndex p # indices subs"
  by (simp add: indices_def)







section \<open>C2: registering a second connection for a user\<close>

text \<open>
  Claim C2 says that the registry holds at most one connection per username and that a new
  registration replaces the older entry of the same user. The registry is keyed by the
  connection, so it does not: after the same user has connected on \<open>s1\<close> and then on
  \<open>s2\<close>, both entries are present, and the lookup by username still yields \<open>s1\<close>.
\<close>

theorem C2_counterexample:
  "connectedUsers
     (fst (handleConnection 2 \<lparr>socketId = ''s2'', socketUser = ''alice''\<rparr>
        (fst (handleConnection 1 \<lparr>socketId = ''s1'', socketUser = ''alice''\<rparr>
           (initial [] [] [] Map.empty)))))
     = [(''s1'', ''alice''), (''s2'', ''alice'')]
   \<and> findSocket
       (connectedUsers
          (fst (handleConnection 2 \<lparr>socketId = ''s2'', socketUser = ''alice''\<rparr>
             (fst (handleConnection 1 \<lparr>socketId = ''s1'', socketUser = ''alice''\<rparr>
                (initial [] [] [] Map.empty))))))
       ''alice'' = Some ''s1''"
  by (simp add: handleConnection_def initial_def findSocket_def findOneAndUpdate_def Let_def)

text \<open>
  Claim C2, amended. The registry holds at most one username per connection. When a
  connection registers under a username that another connection \<open>other\<close> already has, the
  older entry stays, the new one is there as well, and the handler returns normally (no
  uniqueness error exists); when the new connection was not in the registry before, its
  entry is added behind the others and the lookup of the username yields what it yielded
  before, the older connection.
\<close>

theorem C2_register_keeps_older_connection:
  assumes "distinct (map fst (connectedUsers st))"
    and "map_of (connectedUsers st) other = Some (socketUser client)"
    and "other \<noteq> socketId client"
  shows "map_of (connectedUsers (fst (handleConnection now client st))) other = Some (socketUser client)
       \<and> map_of (connectedUsers (fst (handleConnection now client st))) (socketId client)
           = Some (socketUser client)
       \<and> distinct (map fst (connectedUsers (fst (handleConnection now client st))))
       \<and> (socketId client \<notin> fst ` set (connectedUsers st) \<longrightarrow>
            connectedUsers (fst (handleConnection now client st))
              = connectedUsers st @ [(socketId client, socketUser client)]
          \<and> findSocket (connectedUsers (fst (handleConnection now client st))) (socketUser client)
              = findSocket (connectedUsers st) (socketUser client))"
proof -
  have cu: "connectedUsers (fst (handleConnection now client st))
            = AList.update (socketId client) (socketUser client) (connectedUsers st)"
    by (simp add: handleConnection_def Let_def)
  from assms(2) have mem: "(other, socketUser client) \<in> set (connectedUsers st)"
    by (rule map_of_SomeD)
  then obtain x where x: "List.find (\<lambda>e. snd e = socketUser client) (connectedUsers st) = Some x"
    by (cases "List.find (\<lambda>e. snd e = socketUser client) (connectedUsers st)")
       (auto simp: find_None_all)
  show ?thesis
    using assms x
    by (auto simp: cu update_conv' distinct_update update_fresh_append findSocket_def
          find_append_first)
qed

theorem C2_witness:
  "distinct (map fst (connectedUsers
       ((initial [] [] [] Map.empty)\<lparr>connectedUsers := [(''s1'', ''alice'')]\<rparr>)))
   \<and> map_of (connectedUsers ((initial [] [] [] Map.empty)\<lparr>connectedUsers := [(''s1'', ''alice'')]\<rparr>))
         ''s1'' = Some ''alice''
   \<and> ''s1'' \<noteq> ''s2''
   \<and> map_of (connectedUsers (fst (handleConnection 2 \<lparr>socketId = ''s2'', socketUser = ''alice''\<rparr>
         ((initial [] [] [] Map.empty)\<lparr>connectedUsers := [(''s1'', ''alice'')]\<rparr>)))) ''s1''
       = Some ''alice''
   \<and> map_of (connectedUsers (fst (handleConnection 2 \<lparr>socketId = ''s2'', socketUser = ''alice''\<rparr>
         ((initial [] [] [] Map.empty)\<lparr>connectedUsers := [(''s1'', ''alice'')]\<rparr>)))) ''s2''
       = Some ''alice''
   \<and> findSocket (connectedUsers (fst (handleConnection 2 \<lparr>socketId = ''s2'', socketUser = ''alice''\<rparr>
         ((initial [] [] [] Map.empty)\<lparr>connectedUsers := [(''s1'', ''alice'')]\<rparr>)))) ''alice''
       = Some ''s1''"
  using C2_register_keeps_older_connection
    [of "(initial [] [] [] Map.empty)\<lparr>connectedUsers := [(''s1'', ''alice'')]\<rparr>" "''s1''"
        "\<lparr>socketId = ''s2'', socketUser = ''alice''\<rparr>" 2]
  by (simp add: initial_def findSocket_def)

section \<open>C3: delivery on a fetch of the history\<close>

lemma notifySenders_Nil [simp]: "notifySenders cu [] = []"
  by (simp add: notifySenders_def)

lemma notifySenders_Cons:
  "notifySenders cu (x # xs) =
     (case findSocket cu (sender x) of
        None \<Rightarrow> []
      | Some senderSocket \<Rightarrow> [Emit (ToRoom senderSocket) (MessageDelivered (msg_id x))])
     @ notifySenders cu xs"
  by (simp add: notifySenders_def)

lemma notifySenders_mem:
  "a \<in> set (notifySenders cu xs) \<longleftrightarrow>
     (\<exists>x\<in>set xs. \<exists>s. findSocket cu (sender x) = Some s \<and> a = Emit (ToRoom s) (MessageDelivered (msg_id x)))"
  by (induction xs) (auto simp: notifySenders_Cons split: option.splits)

lemma notifySenders_count:
  assumes "distinct (map msg_id xs)" and "m \<in> set xs" and "findSocket cu (sender m) = Some s"
  shows "count_list (notifySenders cu xs) (Emit (ToRoom s) (MessageDelivered (msg_id m))) = 1"
  using assms
proof (induction xs)
  case Nil
  then show ?case by simp
next
  case (Cons x xs)
  show ?case
  proof (cases "x = m")
    case True
    from Cons.prems(1) have "\<forall>y\<in>set xs. msg_id y \<noteq> msg_id m" using True by (auto simp: image_iff)
    then have "Emit (ToRoom s) (MessageDelivered (msg_id m)) \<notin> set (notifySenders cu xs)"
      by (auto simp: notifySenders_mem)
    then have "count_list (notifySenders cu xs) (Emit (ToRoom s) (MessageDelivered (msg_id m))) = 0"
      by (simp add: count_list_0_iff)
    with True Cons.prems(3) show ?thesis by (simp add: notifySenders_Cons)
  next
    case False
    with Cons.prems have m: "m \<in> set xs" and d: "distinct (map msg_id xs)" by auto
    from Cons.prems(1) m have "msg_id x \<noteq> msg_id m" by (auto simp: image_iff)
    with Cons.IH [OF d m Cons.prems(3)] show ?thesis
      by (simp add: notifySenders_Cons split: option.splits)
  qed
qed

lemma conversation_set:
  "set (conversation me other ms) =
     {m \<in> set ms. (sender m = me \<and> receiver m = other) \<or> (sender m = other \<and> receiver m = me)}"
  by (simp add: conversation_def)

lemma conversation_distinct_ids:
  assumes "distinct (map msg_id ms)"
  shows "distinct (map msg_id (conversation me other ms))"
proof -
  from assms have "distinct ms" and "inj_on msg_id (set ms)" by (simp_all add: distinct_map)
  then show ?thesis
    by (auto simp: conversation_def distinct_map intro: inj_on_subset)
qed

text \<open>
  Claim C3 says that the fetch delivers every undelivered message addressed to the
  requester. The query of the handler selects the messages exchanged with the other
  party only, so an undelivered message from somebody else stays undelivered: Bob has one
  message from Alice and one from Carol, both undelivered, and fetches his history with
  Alice; afterwards the message from Carol is still undelivered.
\<close>

theorem C3_counterexample:
  "receiver (privateMessageModel ((initial []
            [(newPrivateMessage 1 5)\<lparr>sender := ''alice'', receiver := ''bob''\<rparr>,
             (newPrivateMessage 2 6)\<lparr>sender := ''carol'', receiver := ''bob''\<rparr>] [] Map.empty)
           \<lparr>connectedUsers := [(''s1'', ''alice'')]\<rparr>) ! 1) = ''bob''
   \<and> \<not> isDelivered (privateMessageModel ((initial []
            [(newPrivateMessage 1 5)\<lparr>sender := ''alice'', receiver := ''bob''\<rparr>,
             (newPrivateMessage 2 6)\<lparr>sender := ''carol'', receiver := ''bob''\<rparr>] [] Map.empty)
           \<lparr>connectedUsers := [(''s1'', ''alice'')]\<rparr>) ! 1)
   \<and> \<not> isDelivered (privateMessageModel (fst (handleGetPrivateMessages 9 \<lparr>socketId = ''s2'', socketUser = ''bob''\<rparr> ''alice''
        ((initial []
            [(newPrivateMessage 1 5)\<lparr>sender := ''alice'', receiver := ''bob''\<rparr>,
             (newPrivateMessage 2 6)\<lparr>sender := ''carol'', receiver := ''bob''\<rparr>] [] Map.empty)
           \<lparr>connectedUsers := [(''s1'', ''alice'')]\<rparr>))) ! 1)"
  by (simp add: handleGetPrivateMessages_def conversation_def updateMany_def initial_def
        newPrivateMessage_def Let_def)

text \<open>
  Claim C3, amended. In a collection with distinct identifiers, the fetch of the history
  with the party \<open>other\<close> changes exactly the undelivered messages that \<open>other\<close> sent to
  the requester: each becomes delivered with the time of the fetch, in one update of the
  collection, and every other message is as before. For each of these messages, if the
  registry finds a connection for its sender then exactly one \<open>messageDelivered\<close> with
  its identifier is sent, to that connection and to nobody else; if it finds none then no
  \<open>messageDelivered\<close> with its identifier is sent at all, and the update stands. No
  \<open>messageDelivered\<close> is sent for any other identifier.
\<close>

theorem C3_history_fetch_delivers_the_conversation:
  assumes "distinct (map msg_id (privateMessageModel st))"
  shows "privateMessageModel (fst (handleGetPrivateMessages now client other st))
           = map (\<lambda>m. if sender m = other \<and> receiver m = socketUser client \<and> \<not> isDelivered m
                        then m\<lparr>isDelivered := True, deliveredAt := now\<rparr> else m)
               (privateMessageModel st)
       \<and> (\<forall>m\<in>set (privateMessageModel st).
             sender m = other \<and> receiver m = socketUser client \<and> \<not> isDelivered m \<longrightarrow>
               (case findSocket (connectedUsers st) (sender m) of
                  None \<Rightarrow>
                    \<forall>t. Emit t (MessageDelivered (msg_id m))
                          \<notin> set (snd (handleGetPrivateMessages now client other st))
                | Some senderSocket \<Rightarrow>
                    count_list (snd (handleGetPrivateMessages now client other st))
                      (Emit (ToRoom senderSocket) (MessageDelivered (msg_id m))) = 1
                    \<and> (\<forall>t. Emit t (MessageDelivered (msg_id m))
                              \<in> set (snd (handleGetPrivateMessages now client other st))
                            \<longrightarrow> t = ToRoom senderSocket)))
       \<and> (\<forall>t i. Emit t (MessageDelivered i) \<in> set (snd (handleGetPrivateMessages now client other st))
             \<longrightarrow> (\<exists>m\<in>set (privateMessageModel st).
                    msg_id m = i \<and> sender m = other \<and> receiver m = socketUser client
                    \<and> \<not> isDelivered m))"
proof -
  let ?me = "socketUser client"
  let ?pms = "privateMessageModel st"
  let ?conv = "conversation ?me other ?pms"
  let ?unread = "filter (\<lambda>msg. \<not> isDelivered msg \<and> receiver msg = ?me) ?conv"
  let ?aff = "\<lambda>m. sender m = other \<and> receiver m = ?me \<and> \<not> isDelivered m"
  let ?out = "snd (handleGetPrivateMessages now client other st)"
  have set_unread: "set ?unread = {m \<in> set ?pms. ?aff m}"
    by (auto simp: conversation_set)
  have d_unread: "distinct (map msg_id ?unread)"
    using conversation_distinct_ids [OF assms, of ?me other] by (simp add: distinct_map_filter)
  from assms have inj: "inj_on msg_id (set ?pms)" by (simp add: distinct_map)
  have sel: "(msg_id m \<in> set (map msg_id ?unread)) = ?aff m" if "m \<in> set ?pms" for m
  proof
    assume "msg_id m \<in> set (map msg_id ?unread)"
    then obtain m' where "m' \<in> set ?unread" "msg_id m' = msg_id m" by auto
    with set_unread have "m' \<in> set ?pms" "?aff m'" "msg_id m' = msg_id m" by auto
    with inj that have "m' = m" by (auto dest: inj_onD)
    with \<open>?aff m'\<close> show "?aff m" by simp
  next
    assume "?aff m"
    with that set_unread have "m \<in> set ?unread" by blast
    then show "msg_id m \<in> set (map msg_id ?unread)" by simp
  qed
  have upd: "updateMany (map msg_id ?unread) (\<lambda>d. d\<lparr>isDelivered := True, deliveredAt := now\<rparr>) ?pms
        = map (\<lambda>m. if ?aff m then m\<lparr>isDelivered := True, deliveredAt := now\<rparr> else m) ?pms"
    unfolding updateMany_def
  proof (rule map_cong [OF refl])
    fix m assume m: "m \<in> set ?pms"
    show "(if msg_id m \<in> set (map msg_id ?unread)
           then m\<lparr>isDelivered := True, deliveredAt := now\<rparr> else m)
        = (if ?aff m then m\<lparr>isDelivered := True, deliveredAt := now\<rparr> else m)"
      by (simp only: sel [OF m])
  qed
  have none: "map (\<lambda>m. if ?aff m then m\<lparr>isDelivered := True, deliveredAt := now\<rparr> else m) ?pms = ?pms"
    if "?unread = []"
  proof -
    from that set_unread have "\<forall>m\<in>set ?pms. \<not> ?aff m" by (metis (mono_tags, lifting) empty_iff mem_Collect_eq set_empty2)
    then show ?thesis by (intro map_idI) auto
  qed
  have store: "privateMessageModel (fst (handleGetPrivateMessages now client other st))
           = map (\<lambda>m. if ?aff m then m\<lparr>isDelivered := True, deliveredAt := now\<rparr> else m) ?pms"
    using upd none by (simp add: handleGetPrivateMessages_def Let_def)
  have out: "?out = notifySenders (connectedUsers st) ?unread
                     @ [Emit (ToClient (socketId client)) (PrivateMessages ?conv)]"
    by (simp add: handleGetPrivateMessages_def Let_def)
  have mem: "Emit t (MessageDelivered i) \<in> set ?out \<longleftrightarrow>
               (\<exists>x\<in>set ?unread. \<exists>s. findSocket (connectedUsers st) (sender x) = Some s
                   \<and> t = ToRoom s \<and> i = msg_id x)" for t i
    unfolding out by (auto simp: notifySenders_mem)
  have cnt: "count_list ?out a = count_list (notifySenders (connectedUsers st) ?unread) a"
    if "a = Emit t (MessageDelivered i)" for a t i
    unfolding out using that by simp
  have part2: "case findSocket (connectedUsers st) (sender m) of
                  None \<Rightarrow> \<forall>t. Emit t (MessageDelivered (msg_id m)) \<notin> set ?out
                | Some senderSocket \<Rightarrow>
                    count_list ?out (Emit (ToRoom senderSocket) (MessageDelivered (msg_id m))) = 1
                    \<and> (\<forall>t. Emit t (MessageDelivered (msg_id m)) \<in> set ?out
                            \<longrightarrow> t = ToRoom senderSocket)"
    if m: "m \<in> set ?pms" and aff: "?aff m" for m
  proof -
    from m aff set_unread have mu: "m \<in> set ?unread" by blast
    have same: "x = m" if "x \<in> set ?unread" "msg_id m = msg_id x" for x
    proof -
      from that set_unread have "x \<in> set ?pms" by blast
      with inj m that(2) show ?thesis by (auto dest: inj_onD)
    qed
    have mem_m: "Emit t (MessageDelivered (msg_id m)) \<in> set ?out \<longleftrightarrow>
                   (\<exists>s. findSocket (connectedUsers st) (sender m) = Some s \<and> t = ToRoom s)" for t
    proof
      assume "Emit t (MessageDelivered (msg_id m)) \<in> set ?out"
      then obtain x s where x: "x \<in> set ?unread" "msg_id m = msg_id x"
        and s: "findSocket (connectedUsers st) (sender x) = Some s" "t = ToRoom s"
        unfolding mem by blast
      from x have "x = m" by (rule same)
      with s show "\<exists>s. findSocket (connectedUsers st) (sender m) = Some s \<and> t = ToRoom s"
        by simp
    next
      assume "\<exists>s. findSocket (connectedUsers st) (sender m) = Some s \<and> t = ToRoom s"
      with mu show "Emit t (MessageDelivered (msg_id m)) \<in> set ?out"
        unfolding mem by blast
    qed
    show ?thesis
    proof (cases "findSocket (connectedUsers st) (sender m)")
      case None
      then show ?thesis by (simp add: mem_m)
    next
      case (Some s)
      have "count_list ?out (Emit (ToRoom s) (MessageDelivered (msg_id m))) = 1"
        using notifySenders_count [OF d_unread mu Some] by (simp add: cnt)
      with Some show ?thesis by (simp add: mem_m)
    qed
  qed
  have part3: "\<exists>m\<in>set ?pms. msg_id m = i \<and> ?aff m"
    if "Emit t (MessageDelivered i) \<in> set ?out" for t i
  proof -
    from that obtain x where "x \<in> set ?unread" "i = msg_id x" unfolding mem by blast
    with set_unread show ?thesis by blast
  qed
  show ?thesis
  proof (intro conjI ballI impI allI)
    show "privateMessageModel (fst (handleGetPrivateMessages now client other st))
           = map (\<lambda>m. if ?aff m then m\<lparr>isDelivered := True, deliveredAt := now\<rparr> else m) ?pms"
      by (rule store)
  next
    fix m assume "m \<in> set ?pms" and "?aff m"
    then show "case findSocket (connectedUsers st) (sender m) of
                  None \<Rightarrow> \<forall>t. Emit t (MessageDelivered (msg_id m)) \<notin> set ?out
                | Some senderSocket \<Rightarrow>
                    count_list ?out (Emit (ToRoom senderSocket) (MessageDelivered (msg_id m))) = 1
                    \<and> (\<forall>t. Emit t (MessageDelivered (msg_id m)) \<in> set ?out
                            \<longrightarrow> t = ToRoom senderSocket)"
      by (rule part2)
  next
    fix t i assume "Emit t (MessageDelivered i) \<in> set ?out"
    then show "\<exists>m\<in>set ?pms. msg_id m = i \<and> ?aff m" by (rule part3)
  qed
qed

theorem C3_witness:
  "distinct (map msg_id (privateMessageModel ((initial []
            [(newPrivateMessage 1 5)\<lparr>sender := ''alice'', receiver := ''bob''\<rparr>,
             (newPrivateMessage 2 6)\<lparr>sender := ''carol'', receiver := ''bob''\<rparr>] [] Map.empty)
           \<lparr>connectedUsers := [(''s1'', ''alice'')]\<rparr>)))
   \<and> privateMessageModel (fst (handleGetPrivateMessages 9 \<lparr>socketId = ''s2'', socketUser = ''bob''\<rparr> ''alice''
        ((initial []
            [(newPrivateMessage 1 5)\<lparr>sender := ''alice'', receiver := ''bob''\<rparr>,
             (newPrivateMessage 2 6)\<lparr>sender := ''carol'', receiver := ''bob''\<rparr>] [] Map.empty)
           \<lparr>connectedUsers := [(''s1'', ''alice'')]\<rparr>)))
       = [(newPrivateMessage 1 5)\<lparr>sender := ''alice'', receiver := ''bob'',
                                   isDelivered := True, deliveredAt := 9\<rparr>,
          (newPrivateMessage 2 6)\<lparr>sender := ''carol'', receiver := ''bob''\<rparr>]
   \<and> count_list (snd (handleGetPrivateMessages 9 \<lparr>socketId = ''s2'', socketUser = ''bob''\<rparr> ''alice''
        ((initial []
            [(newPrivateMessage 1 5)\<lparr>sender := ''alice'', receiver := ''bob''\<rparr>,
             (newPrivateMessage 2 6)\<lparr>sender := ''carol'', receiver := ''bob''\<rparr>] [] Map.empty)
           \<lparr>connectedUsers := [(''s1'', ''alice'')]\<rparr>)))
        (Emit (ToRoom ''s1'') (MessageDelivered 1)) = 1"
  using C3_history_fetch_delivers_the_conversation
    [of "((initial []
            [(newPrivateMessage 1 5)\<lparr>sender := ''alice'', receiver := ''bob''\<rparr>,
             (newPrivateMessage 2 6)\<lparr>sender := ''carol'', receiver := ''bob''\<rparr>] [] Map.empty)
           \<lparr>connectedUsers := [(''s1'', ''alice'')]\<rparr>)" 9 "\<lparr>socketId = ''s2'', socketUser = ''bob''\<rparr>" "''alice''"]
  by (simp add: initial_def newPrivateMessage_def findSocket_def)

section \<open>C4: marking a message as read\<close>

text \<open>
  Claim C4. A request for an identifier that no stored message has, or by somebody who
  is not the receiver of the message, changes nothing and emits nothing. When the caller
  is the receiver of a message that the store accepts (its sender, receiver and content
  are not empty, as for every message that the gateway has stored), and whether or not
  the message has been delivered, the stored message
  becomes the old one with \<open>isRead\<close> set and \<open>readAt\<close> the time of the request; no
  other message and no other part of the state changes; and the sender, if the registry
  finds a connection for it, is sent \<open>messageRead\<close> with the identifier and that time,
  otherwise nothing is sent.
\<close>

theorem C4_mark_read_guarded_by_receiver_only:
  "(findById i (privateMessageModel st) = None \<longrightarrow> handleMarkMessageAsRead now client i st = (st, []))
 \<and> (findById i (privateMessageModel st) = Some m \<and> receiver m \<noteq> socketUser client
       \<longrightarrow> handleMarkMessageAsRead now client i st = (st, []))
 \<and> (findById i (privateMessageModel st) = Some m \<and> receiver m = socketUser client \<and> storable m
       \<longrightarrow> fst (handleMarkMessageAsRead now client i st)
             = st\<lparr>privateMessageModel := privateMessageModel (fst (handleMarkMessageAsRead now client i st))\<rparr>
         \<and> findById i (privateMessageModel (fst (handleMarkMessageAsRead now client i st)))
             = Some (m\<lparr>isRead := True, readAt := Some now\<rparr>)
         \<and> (\<forall>j. j \<noteq> i \<longrightarrow> findById j (privateMessageModel (fst (handleMarkMessageAsRead now client i st)))
                          = findById j (privateMessageModel st))
         \<and> map msg_id (privateMessageModel (fst (handleMarkMessageAsRead now client i st)))
             = map msg_id (privateMessageModel st)
         \<and> snd (handleMarkMessageAsRead now client i st)
             = (case findSocket (connectedUsers st) (sender m) of
                  None \<Rightarrow> []
                | Some senderSocket \<Rightarrow> [Emit (ToRoom senderSocket) (MessageRead i now)]))"
proof (intro conjI impI)
  assume a: "findById i (privateMessageModel st) = Some m \<and> receiver m = socketUser client \<and> storable m"
  then have f: "findById i (privateMessageModel st) = Some m" and r: "receiver m = socketUser client"
    and ok: "storable m"
    by auto
  from f have id: "msg_id m = i" by (simp add: findById_Some)
  let ?m' = "m\<lparr>isRead := True, readAt := Some now\<rparr>"
  let ?f = "\<lambda>d. d\<lparr>isRead := True, readAt := Some now\<rparr>"
  have sv: "saveModified m ?f (privateMessageModel st)
            = Inr (updateFirst (\<lambda>d. msg_id d = i) ?f (privateMessageModel st))"
    using ok id by (simp add: saveModified_def storable_def)
  have res: "handleMarkMessageAsRead now client i st
     = (st\<lparr>privateMessageModel := updateFirst (\<lambda>d. msg_id d = i) ?f (privateMessageModel st)\<rparr>,
        case findSocket (connectedUsers st) (sender m) of
          None \<Rightarrow> []
        | Some senderSocket \<Rightarrow> [Emit (ToRoom senderSocket) (MessageRead i now)])"
    using f r id sv by (simp add: handleMarkMessageAsRead_def Let_def cong: option.case_cong)
  show "fst (handleMarkMessageAsRead now client i st)
             = st\<lparr>privateMessageModel := privateMessageModel (fst (handleMarkMessageAsRead now client i st))\<rparr>"
    by (simp add: res)
  show "findById i (privateMessageModel (fst (handleMarkMessageAsRead now client i st)))
             = Some ?m'"
    using f id by (simp add: res findById_def find_updateFirst_same)
  show "\<forall>j. j \<noteq> i \<longrightarrow> findById j (privateMessageModel (fst (handleMarkMessageAsRead now client i st)))
                          = findById j (privateMessageModel st)"
    using id by (auto simp: res findById_def intro!: find_updateFirst_other)
  show "map msg_id (privateMessageModel (fst (handleMarkMessageAsRead now client i st)))
             = map msg_id (privateMessageModel st)"
    using id by (auto simp: res intro!: map_updateFirst_cong)
  show "snd (handleMarkMessageAsRead now client i st)
             = (case findSocket (connectedUsers st) (sender m) of
                  None \<Rightarrow> []
                | Some senderSocket \<Rightarrow> [Emit (ToRoom senderSocket) (MessageRead i now)])"
    by (simp add: res)
qed (simp_all add: handleMarkMessageAsRead_def)

theorem C4_witness:
  "findById 1 (privateMessageModel
      ((initial [] [(newPrivateMessage 1 5)\<lparr>sender := ''alice'', receiver := ''bob'', content := ''hi''\<rparr>] [] Map.empty)
         \<lparr>connectedUsers := [(''s1'', ''alice'')]\<rparr>))
     = Some ((newPrivateMessage 1 5)\<lparr>sender := ''alice'', receiver := ''bob'', content := ''hi''\<rparr>)
   \<and> receiver ((newPrivateMessage 1 5)\<lparr>sender := ''alice'', receiver := ''bob'', content := ''hi''\<rparr>) = ''bob''
   \<and> storable ((newPrivateMessage 1 5)\<lparr>sender := ''alice'', receiver := ''bob'', content := ''hi''\<rparr>)
   \<and> \<not> isDelivered ((newPrivateMessage 1 5)\<lparr>sender := ''alice'', receiver := ''bob'', content := ''hi''\<rparr>)
   \<and> findById 1 (privateMessageModel (fst (handleMarkMessageAsRead 9
        \<lparr>socketId = ''s2'', socketUser = ''bob''\<rparr> 1
        ((initial [] [(newPrivateMessage 1 5)\<lparr>sender := ''alice'', receiver := ''bob'', content := ''hi''\<rparr>] [] Map.empty)
           \<lparr>connectedUsers := [(''s1'', ''alice'')]\<rparr>))))
     = Some ((newPrivateMessage 1 5)\<lparr>sender := ''alice'', receiver := ''bob'', content := ''hi'',
                                       isRead := True, readAt := Some 9\<rparr>)
   \<and> snd (handleMarkMessageAsRead 9 \<lparr>socketId = ''s2'', socketUser = ''bob''\<rparr> 1
        ((initial [] [(newPrivateMessage 1 5)\<lparr>sender := ''alice'', receiver := ''bob'', content := ''hi''\<rparr>] [] Map.empty)
           \<lparr>connectedUsers := [(''s1'', ''alice'')]\<rparr>))
     = [Emit (ToRoom ''s1'') (MessageRead 1 9)]"
  using C4_mark_read_guarded_by_receiver_only
    [of 1 "(initial [] [(newPrivateMessage 1 5)\<lparr>sender := ''alice'', receiver := ''bob'', content := ''hi''\<rparr>] [] Map.empty)
           \<lparr>connectedUsers := [(''s1'', ''alice'')]\<rparr>"
        9 "\<lparr>socketId = ''s2'', socketUser = ''bob''\<rparr>"
        "(newPrivateMessage 1 5)\<lparr>sender := ''alice'', receiver := ''bob'', content := ''hi''\<rparr>"]
  by (simp add: initial_def findById_def newPrivateMessage_def findSocket_def storable_def)

section \<open>C5: sending a private message\<close>

text \<open>
  Claim C5, as stated for every send, fails: the store refuses a message whose content is
  empty, the handler ends at the first \<open>save\<close>, and nothing is stored, echoed or sent,
  although the receiver is connected.
\<close>

theorem C5_counterexample:
  "findSocket (connectedUsers ((initial [] [] [] Map.empty)
       \<lparr>connectedUsers := [(''s1'', ''alice''), (''s3'', ''bob'')]\<rparr>)) ''bob'' = Some ''s3''
   \<and> handlePrivateMessage emptyDecoder 4 \<lparr>socketId = ''s1'', socketUser = ''alice''\<rparr> ''bob'' ''''
         ((initial [] [] [] Map.empty)\<lparr>connectedUsers := [(''s1'', ''alice''), (''s3'', ''bob'')]\<rparr>)
     = ((initial [] [] [] Map.empty)\<lparr>connectedUsers := [(''s1'', ''alice''), (''s3'', ''bob'')]\<rparr>, [])
   \<and> privateMessageModel (fst (handlePrivateMessage emptyDecoder 4
         \<lparr>socketId = ''s1'', socketUser = ''alice''\<rparr> ''bob'' ''''
         ((initial [] [] [] Map.empty)\<lparr>connectedUsers := [(''s1'', ''alice''), (''s3'', ''bob'')]\<rparr>)))
     = []"
  by (simp add: handlePrivateMessage_def save_def storable_def newPrivateMessage_def
        initial_def findSocket_def Let_def)

text \<open>
  Claim C5, amended. A send whose sender name, receiver or content is empty stores nothing
  and emits nothing. Every other send appends one message to the collection, under an
  identifier that no stored message has, with the caller as sender and the given receiver
  and content, unread. When the registry finds no connection for the receiver the message
  stays undelivered and the only action is the echo to the caller. When it finds one, the
  stored message is delivered, stamped with the clock as read after the first save, and
  the actions are, in this order: the message to the receiver (as it was before the flag
  and the stamp were set), \<open>messageDelivered\<close> with the identifier to the caller, the
  echo of the stored message to the caller, and the notification that ends the typing
  indicator.
\<close>

theorem C5_send_private_message:
  "((socketUser client = [] \<or> rcv = [] \<or> body = []) \<longrightarrow>
      handlePrivateMessage e now client rcv body st = (st, []))
 \<and> (socketUser client \<noteq> [] \<and> rcv \<noteq> [] \<and> body \<noteq> [] \<longrightarrow>
      (\<exists>m. privateMessageModel (fst (handlePrivateMessage e now client rcv body st))
              = privateMessageModel st @ [m]
          \<and> msg_id m \<notin> set (map msg_id (privateMessageModel st))
          \<and> sender m = socketUser client \<and> receiver m = rcv \<and> content m = body \<and> \<not> isRead m
          \<and> (case findSocket (connectedUsers st) rcv of
                None \<Rightarrow>
                  \<not> isDelivered m
                  \<and> snd (handlePrivateMessage e now client rcv body st)
                      = [Emit (ToClient (socketId client)) (NewPrivateMessage m)]
              | Some receiverSocket \<Rightarrow>
                  isDelivered m \<and> deliveredAt m = later e now
                  \<and> snd (handlePrivateMessage e now client rcv body st)
                      = [Emit (ToRoom receiverSocket)
                           (NewPrivateMessage (m\<lparr>isDelivered := False, deliveredAt := now\<rparr>)),
                         Emit (ToClient (socketId client)) (MessageDelivered (msg_id m)),
                         Emit (ToClient (socketId client)) (NewPrivateMessage m),
                         Emit (ToRoom receiverSocket) (UserStoppedTyping (socketUser client))])))"
proof (intro conjI impI)
  assume "socketUser client = [] \<or> rcv = [] \<or> body = []"
  then show "handlePrivateMessage e now client rcv body st = (st, [])"
    by (rule handlePrivateMessage_refused)
next
  assume ne: "socketUser client \<noteq> [] \<and> rcv \<noteq> [] \<and> body \<noteq> []"
  let ?i = "newObjectId (map msg_id (privateMessageModel st))"
  let ?m0 = "(newPrivateMessage ?i now)\<lparr>sender := socketUser client, receiver := rcv, content := body\<rparr>"
  have fresh: "msg_id ?m0 \<notin> set (map msg_id (privateMessageModel st))"
    using newObjectId_fresh [of "map msg_id (privateMessageModel st)"]
    by (simp add: newPrivateMessage_def)
  have res: "handlePrivateMessage e now client rcv body st =
     (case findSocket (connectedUsers st) rcv of
           None \<Rightarrow>
             (fst (handleStopTyping client rcv (st\<lparr>privateMessageModel := privateMessageModel st @ [?m0]\<rparr>)),
              Emit (ToClient (socketId client)) (NewPrivateMessage ?m0)
                # snd (handleStopTyping client rcv st))
         | Some rs \<Rightarrow>
             (fst (handleStopTyping client rcv
                     (st\<lparr>privateMessageModel :=
                           privateMessageModel st @ [markDelivered (later e now) ?m0]\<rparr>)),
              [Emit (ToRoom rs) (NewPrivateMessage ?m0),
               Emit (ToClient (socketId client)) (MessageDelivered (msg_id ?m0)),
               Emit (ToClient (socketId client)) (NewPrivateMessage (markDelivered (later e now) ?m0))]
                @ snd (handleStopTyping client rcv st)))"
    using ne handlePrivateMessage_stored [of client rcv body e now st] by (simp add: Let_def)
  show "\<exists>m. privateMessageModel (fst (handlePrivateMessage e now client rcv body st))
              = privateMessageModel st @ [m]
          \<and> msg_id m \<notin> set (map msg_id (privateMessageModel st))
          \<and> sender m = socketUser client \<and> receiver m = rcv \<and> content m = body \<and> \<not> isRead m
          \<and> (case findSocket (connectedUsers st) rcv of
                None \<Rightarrow>
                  \<not> isDelivered m
                  \<and> snd (handlePrivateMessage e now client rcv body st)
                      = [Emit (ToClient (socketId client)) (NewPrivateMessage m)]
              | Some receiverSocket \<Rightarrow>
                  isDelivered m \<and> deliveredAt m = later e now
                  \<and> snd (handlePrivateMessage e now client rcv body st)
                      = [Emit (ToRoom receiverSocket)
                           (NewPrivateMessage (m\<lparr>isDelivered := False, deliveredAt := now\<rparr>)),
                         Emit (ToClient (socketId client)) (MessageDelivered (msg_id m)),
                         Emit (ToClient (socketId client)) (NewPrivateMessage m),
                         Emit (ToRoom receiverSocket) (UserStoppedTyping (socketUser client))])"
  proof (cases "findSocket (connectedUsers st) rcv")
    case None
    then show ?thesis
      using fresh
      by (intro exI [of _ ?m0])
         (simp add: res handleStopTyping_def Let_def newPrivateMessage_def)
  next
    case (Some rs)
    then show ?thesis
      using fresh
      by (intro exI [of _ "markDelivered (later e now) ?m0"])
         (simp add: res handleStopTyping_def Let_def newPrivateMessage_def markDelivered_def)
  qed
qed

theorem C5_witness:
  "socketUser \<lparr>socketId = ''s1'', socketUser = ''alice''\<rparr> \<noteq> [] \<and> ''bob'' \<noteq> [] \<and> ''hi'' \<noteq> []
   \<and> findSocket (connectedUsers ((initial [] [] [] Map.empty)
       \<lparr>connectedUsers := [(''s1'', ''alice''), (''s3'', ''bob'')]\<rparr>)) ''bob'' = Some ''s3''
   \<and> privateMessageModel (fst (handlePrivateMessage emptyDecoder 4 \<lparr>socketId = ''s1'', socketUser = ''alice''\<rparr>
         ''bob'' ''hi''
         ((initial [] [] [] Map.empty)\<lparr>connectedUsers := [(''s1'', ''alice''), (''s3'', ''bob'')]\<rparr>)))
     = [(newPrivateMessage 1 4)\<lparr>sender := ''alice'', receiver := ''bob'', content := ''hi'',
                                 isDelivered := True, deliveredAt := 5\<rparr>]
   \<and> snd (handlePrivateMessage emptyDecoder 4 \<lparr>socketId = ''s1'', socketUser = ''alice''\<rparr> ''bob'' ''hi''
         ((initial [] [] [] Map.empty)\<lparr>connectedUsers := [(''s1'', ''alice''), (''s3'', ''bob'')]\<rparr>))
     = [Emit (ToRoom ''s3'') (NewPrivateMessage
          ((newPrivateMessage 1 4)\<lparr>sender := ''alice'', receiver := ''bob'', content := ''hi''\<rparr>)),
        Emit (ToClient ''s1'') (MessageDelivered 1),
        Emit (ToClient ''s1'') (NewPrivateMessage
          ((newPrivateMessage 1 4)\<lparr>sender := ''alice'', receiver := ''bob'', content := ''hi'',
                                    isDelivered := True, deliveredAt := 5\<rparr>)),
        Emit (ToRoom ''s3'') (UserStoppedTyping ''alice'')]"
proof -
  have f: "findSocket (connectedUsers ((initial [] [] [] Map.empty)
       \<lparr>connectedUsers := [(''s1'', ''alice''), (''s3'', ''bob'')]\<rparr>)) ''bob'' = Some ''s3''"
    by (simp add: initial_def findSocket_def)
  have ne: "socketUser \<lparr>socketId = ''s1'', socketUser = ''alice''\<rparr> \<noteq> [] \<and> ''bob'' \<noteq> [] \<and> ''hi'' \<noteq> []"
    by simp
  from C5_send_private_message
    [where client = "\<lparr>socketId = ''s1'', socketUser = ''alice''\<rparr>" and rcv = "''bob''"
       and body = "''hi''" and e = emptyDecoder and now = 4
       and st = "(initial [] [] [] Map.empty)\<lparr>connectedUsers := [(''s1'', ''alice''), (''s3'', ''bob'')]\<rparr>",
     THEN conjunct2, THEN mp, OF ne]
  obtain m where m: "privateMessageModel (fst (handlePrivateMessage emptyDecoder 4 \<lparr>socketId = ''s1'', socketUser = ''alice''\<rparr>
         ''bob'' ''hi''
         ((initial [] [] [] Map.empty)\<lparr>connectedUsers := [(''s1'', ''alice''), (''s3'', ''bob'')]\<rparr>)))
     = privateMessageModel ((initial [] [] [] Map.empty)\<lparr>connectedUsers := [(''s1'', ''alice''), (''s3'', ''bob'')]\<rparr>) @ [m]"
    and out: "snd (handlePrivateMessage emptyDecoder 4 \<lparr>socketId = ''s1'', socketUser = ''alice''\<rparr> ''bob'' ''hi''
         ((initial [] [] [] Map.empty)\<lparr>connectedUsers := [(''s1'', ''alice''), (''s3'', ''bob'')]\<rparr>))
     = [Emit (ToRoom ''s3'') (NewPrivateMessage (m\<lparr>isDelivered := False, deliveredAt := 4\<rparr>)),
        Emit (ToClient ''s1'') (MessageDelivered (msg_id m)),
        Emit (ToClient ''s1'') (NewPrivateMessage m),
        Emit (ToRoom ''s3'') (UserStoppedTyping ''alice'')]"
    using f by auto
  have "privateMessageModel (fst (handlePrivateMessage emptyDecoder 4 \<lparr>socketId = ''s1'', socketUser = ''alice''\<rparr>
         ''bob'' ''hi''
         ((initial [] [] [] Map.empty)\<lparr>connectedUsers := [(''s1'', ''alice''), (''s3'', ''bob'')]\<rparr>)))
     = [(newPrivateMessage 1 4)\<lparr>sender := ''alice'', receiver := ''bob'', content := ''hi'',
                                 isDelivered := True, deliveredAt := 5\<rparr>]"
    by (simp add: handlePrivateMessage_def save_def saveModified_def storable_def markDelivered_def
          handleStopTyping_def emptyDecoder_def
          newObjectId_def newPrivateMessage_def initial_def findSocket_def Let_def)
  with m out f show ?thesis by (simp add: initial_def newPrivateMessage_def)
qed

section \<open>C6: the delivery and read flags are latches\<close>

lemma keeps_refl [simp]: "keeps m m"
  by (simp add: keeps_def)

lemma keeps_trans: "keeps a b \<Longrightarrow> keeps b c \<Longrightarrow> keeps a c"
  by (auto simp: keeps_def)

lemma latched_refl [simp]: "latched ms ms"
  by (simp add: latched_def)

lemma latched_trans: "latched a b \<Longrightarrow> latched b c \<Longrightarrow> latched a c"
  unfolding latched_def by (meson keeps_trans le_trans less_le_trans)

lemma latched_append [simp]: "latched ms (ms @ xs)"
  by (simp add: latched_def nth_append)

lemma latched_updateFirst:
  "(\<And>x. keeps x (f x)) \<Longrightarrow> latched ms (updateFirst P f ms)"
proof (induction ms)
  case Nil
  show ?case by simp
next
  case (Cons m ms)
  then have ih: "latched ms (updateFirst P f ms)" by simp
  show ?case
  proof (cases "P m")
    case True
    with Cons.prems show ?thesis by (auto simp: latched_def nth_Cons split: nat.splits)
  next
    case False
    with ih show ?thesis by (auto simp: latched_def nth_Cons split: nat.splits)
  qed
qed

lemma latched_updateMany:
  "(\<And>x. keeps x (f x)) \<Longrightarrow> latched ms (updateMany ids f ms)"
  by (simp add: latched_def updateMany_def)

lemma keeps_markDelivered [simp]: "keeps x (markDelivered t x)"
  by (simp add: keeps_def markDelivered_def)

lemma saveModified_latched:
  assumes "saveModified m f ms = Inr ms'" and "\<And>x. keeps x (f x)"
  shows "latched ms ms'"
proof -
  from assms(1) have "ms' = updateFirst (\<lambda>d. msg_id d = msg_id m) f ms"
    by (simp add: saveModified_def split: if_splits)
  with assms(2) show ?thesis by (simp add: latched_updateFirst)
qed

lemma save_latched: "save m ms = Inr ms' \<Longrightarrow> latched ms ms'"
  by (auto simp: save_def split: if_splits)

lemma handlePrivateMessage_latched:
  "latched (privateMessageModel st) (privateMessageModel (fst (handlePrivateMessage e now c r body st)))"
proof (cases "socketUser c = [] \<or> r = [] \<or> body = []")
  case True
  then show ?thesis by (simp add: handlePrivateMessage_refused)
next
  case False
  then show ?thesis
    by (simp add: handlePrivateMessage_stored handleStopTyping_def Let_def split: option.splits)
qed

lemma handleMarkMessageAsRead_latched:
  "latched (privateMessageModel st) (privateMessageModel (fst (handleMarkMessageAsRead now c i st)))"
proof -
  have "latched (privateMessageModel st) ms"
    if "saveModified m (\<lambda>d. d\<lparr>isRead := True, readAt := Some now\<rparr>) (privateMessageModel st) = Inr ms"
    for m ms
    using that by (rule saveModified_latched) (simp add: keeps_def)
  then show ?thesis
    by (simp add: handleMarkMessageAsRead_def Let_def split: option.splits sum.splits)
qed

lemma handleGetPrivateMessages_latched:
  "latched (privateMessageModel st) (privateMessageModel (fst (handleGetPrivateMessages now c other st)))"
  by (simp add: handleGetPrivateMessages_def Let_def latched_updateMany keeps_def)

lemma resumeToEnd_AtSave_latched:
  "latched (privateMessageModel st) (privateMessageModel (fst (resumeToEnd e now c p (AtSave m) st)))"
proof -
  have "latched (privateMessageModel st) ms"
    if "saveModified m (markDelivered (later e now)) (privateMessageModel st) = Inr ms" for ms
    using that by (rule saveModified_latched) simp
  then show ?thesis
    by (simp add: resumeToEnd_AtSave split: option.splits sum.splits)
qed

lemma resumeToEnd_latched:
  "latched (privateMessageModel st) (privateMessageModel (fst (resumeToEnd e now c p s st)))"
proof (cases s)
  case (AtWrite name)
  let ?m = "fileMessage (newObjectId (map msg_id (privateMessageModel st))) now c p name"
  show ?thesis
  proof (cases "save ?m (privateMessageModel st)")
    case (Inl err)
    with AtWrite show ?thesis by (simp add: resumeToEnd_AtWrite)
  next
    case (Inr ms)
    then have "latched (privateMessageModel st) ms" by (rule save_latched)
    moreover have "latched ms
        (privateMessageModel (fst (resumeToEnd e now c p (AtSave ?m) (st\<lparr>privateMessageModel := ms\<rparr>))))"
      using resumeToEnd_AtSave_latched [of "st\<lparr>privateMessageModel := ms\<rparr>" e now c p ?m] by simp
    ultimately show ?thesis
      using AtWrite Inr by (simp add: resumeToEnd_AtWrite) (rule latched_trans)
  qed
next
  case (AtSave m)
  then show ?thesis by (simp add: resumeToEnd_AtSave_latched)
next
  case (AtDeliveredSave m)
  then show ?thesis by (simp add: resumeToEnd_AtDeliveredSave)
qed

lemma settle_latched:
  "latched (privateMessageModel st) (privateMessageModel (fst (settle e now c p r st)))"
proof (cases r)
  case (Inl err)
  then show ?thesis by (simp add: settle_Inl)
next
  case (Inr res)
  then show ?thesis
    by (cases res) (simp_all add: settle_None settle_Some resumeToEnd_latched)
qed

lemma handleUploadChunk_latched:
  "latched (privateMessageModel st) (privateMessageModel (fst (handleUploadChunk e now c p st)))"
  using settle_latched [of "fst (uploadChunkBegin e now c p st)" e now c p
                           "snd (snd (uploadChunkBegin e now c p st))"]
        uploadChunkBegin_frame [of e now c p st]
  by (simp add: handleUploadChunk_pieces)

lemma step_latched:
  "latched (privateMessageModel st) (privateMessageModel (fst (step e st ev)))"
proof (cases ev)
  case (Pair now x)
  show ?thesis
    unfolding Pair
    by (cases x)
       (simp_all add: handlePrivateMessage_latched handleMarkMessageAsRead_latched
          handleGetPrivateMessages_latched handleUploadChunk_latched
          handleConnection_def handleDisconnect_def handleJoinRoom_def handleLeaveRoom_def
          handleMessage_def handleSearchUsers_def handleTyping_def handleStopTyping_def
          handleStartFileUpload_def handleCancelUpload_def Let_def split: option.splits)
qed

lemma run_latched:
  "latched (privateMessageModel st) (privateMessageModel (fst (run e st evs)))"
proof (induction evs arbitrary: st)
  case Nil
  show ?case by simp
next
  case (Cons ev evs)
  have "latched (privateMessageModel st) (privateMessageModel (fst (step e st ev)))"
    by (rule step_latched)
  moreover have "latched (privateMessageModel (fst (step e st ev)))
                   (privateMessageModel (fst (run e (fst (step e st ev)) evs)))"
    by (rule Cons.IH)
  ultimately show ?case
    unfolding fst_run_Cons by (rule latched_trans)
qed

lemma history_latched:
  "s \<in> set (history e st evs) \<Longrightarrow> latched (privateMessageModel st) (privateMessageModel s)"
proof (induction evs arbitrary: st)
  case Nil
  then show ?case by simp
next
  case (Cons ev evs)
  show ?case
  proof (cases "s = st")
    case True
    then show ?thesis by simp
  next
    case False
    with Cons.prems have "s \<in> set (history e (fst (step e st ev)) evs)" by simp
    then have "latched (privateMessageModel (fst (step e st ev))) (privateMessageModel s)"
      by (rule Cons.IH)
    with step_latched [of st e ev] show ?thesis by (rule latched_trans)
  qed
qed

lemma flips_all_True: "\<forall>b\<in>set bs. b \<Longrightarrow> flips bs = 0"
  by (induction bs rule: flips.induct) auto

lemma flips_sorted: "sorted_wrt (\<longrightarrow>) bs \<Longrightarrow> flips bs \<le> 1"
proof (induction bs rule: flips.induct)
  case (1 a b bs)
  show ?case
  proof (cases "\<not> a \<and> b")
    case True
    with "1.prems" have "\<forall>x\<in>set (b # bs). x" by auto
    then have "flips (b # bs) = 0" by (rule flips_all_True)
    with True show ?thesis by simp
  next
    case False
    from "1.prems" have "sorted_wrt (\<longrightarrow>) (b # bs)" by auto
    then have "flips (b # bs) \<le> 1" by (rule "1.IH")
    with False show ?thesis by auto
  qed
qed simp_all

lemma history_flag_sorted:
  assumes "k < length (privateMessageModel st)"
  shows "sorted_wrt (\<longrightarrow>) (map (\<lambda>s. isDelivered (privateMessageModel s ! k)) (history e st evs))
       \<and> sorted_wrt (\<longrightarrow>) (map (\<lambda>s. isRead (privateMessageModel s ! k)) (history e st evs))"
  using assms
proof (induction evs arbitrary: st)
  case Nil
  show ?case by simp
next
  case (Cons ev evs)
  let ?st1 = "fst (step e st ev)"
  have l1: "latched (privateMessageModel st) (privateMessageModel ?st1)" by (rule step_latched)
  with Cons.prems have k1: "k < length (privateMessageModel ?st1)" by (simp add: latched_def)
  have "\<forall>s\<in>set (history e ?st1 evs). keeps (privateMessageModel st ! k) (privateMessageModel s ! k)"
  proof
    fix s assume "s \<in> set (history e ?st1 evs)"
    then have "latched (privateMessageModel ?st1) (privateMessageModel s)" by (rule history_latched)
    with l1 have "latched (privateMessageModel st) (privateMessageModel s)" by (rule latched_trans)
    with Cons.prems show "keeps (privateMessageModel st ! k) (privateMessageModel s ! k)"
      by (simp add: latched_def)
  qed
  with Cons.IH [OF k1] show ?case by (auto simp: keeps_def)
qed

text \<open>
  Claim C6. Take the message at any position of the collection and let any sequence of
  events be handled. The position still exists and holds a message with the same
  identifier; if the message was delivered it is delivered, if it was read it is read; and
  along the states the run goes through, each of the two flags goes from unset to set at
  most once.
\<close>

theorem C6_flags_are_latches:
  assumes "k < length (privateMessageModel st)"
  shows "k < length (privateMessageModel (fst (run e st evs)))
       \<and> msg_id (privateMessageModel (fst (run e st evs)) ! k) = msg_id (privateMessageModel st ! k)
       \<and> (isDelivered (privateMessageModel st ! k)
            \<longrightarrow> isDelivered (privateMessageModel (fst (run e st evs)) ! k))
       \<and> (isRead (privateMessageModel st ! k)
            \<longrightarrow> isRead (privateMessageModel (fst (run e st evs)) ! k))
       \<and> flips (map (\<lambda>s. isDelivered (privateMessageModel s ! k)) (history e st evs)) \<le> 1
       \<and> flips (map (\<lambda>s. isRead (privateMessageModel s ! k)) (history e st evs)) \<le> 1"
proof -
  have "latched (privateMessageModel st) (privateMessageModel (fst (run e st evs)))"
    by (rule run_latched)
  with assms have "k < length (privateMessageModel (fst (run e st evs)))"
    and "keeps (privateMessageModel st ! k) (privateMessageModel (fst (run e st evs)) ! k)"
    by (simp_all add: latched_def)
  moreover
  have "flips (map (\<lambda>s. isDelivered (privateMessageModel s ! k)) (history e st evs)) \<le> 1"
    by (rule flips_sorted [OF conjunct1 [OF history_flag_sorted [OF assms]]])
  moreover
  have "flips (map (\<lambda>s. isRead (privateMessageModel s ! k)) (history e st evs)) \<le> 1"
    by (rule flips_sorted [OF conjunct2 [OF history_flag_sorted [OF assms]]])
  ultimately show ?thesis by (simp add: keeps_def)
qed

theorem C6_witness:
  "0 < length (privateMessageModel
         (initial [] [(newPrivateMessage 1 5)\<lparr>sender := ''alice'', receiver := ''bob'', content := ''hi'',
                                              isDelivered := True\<rparr>] [] Map.empty))
   \<and> isDelivered (privateMessageModel
         (initial [] [(newPrivateMessage 1 5)\<lparr>sender := ''alice'', receiver := ''bob'', content := ''hi'',
                                              isDelivered := True\<rparr>] [] Map.empty) ! 0)
   \<and> isDelivered (privateMessageModel (fst (run \<lparr>base64 = (\<lambda>_. []), regexI = (\<lambda>_. None), later = Suc\<rparr>
         (initial [] [(newPrivateMessage 1 5)\<lparr>sender := ''alice'', receiver := ''bob'', content := ''hi'',
                                              isDelivered := True\<rparr>] [] Map.empty)
         [(7, MarkMessageAsRead \<lparr>socketId = ''s2'', socketUser = ''bob''\<rparr> 1),
          (8, GetPrivateMessages \<lparr>socketId = ''s2'', socketUser = ''bob''\<rparr> ''alice'')])) ! 0)
   \<and> flips (map (\<lambda>s. isRead (privateMessageModel s ! 0))
         (history \<lparr>base64 = (\<lambda>_. []), regexI = (\<lambda>_. None), later = Suc\<rparr>
            (initial [] [(newPrivateMessage 1 5)\<lparr>sender := ''alice'', receiver := ''bob'', content := ''hi'',
                                                 isDelivered := True\<rparr>] [] Map.empty)
            [(7, MarkMessageAsRead \<lparr>socketId = ''s2'', socketUser = ''bob''\<rparr> 1),
             (8, GetPrivateMessages \<lparr>socketId = ''s2'', socketUser = ''bob''\<rparr> ''alice'')])) \<le> 1"
  using C6_flags_are_latches
    [of 0 "initial [] [(newPrivateMessage 1 5)\<lparr>sender := ''alice'', receiver := ''bob'', content := ''hi'',
                                               isDelivered := True\<rparr>] [] Map.empty"
        "\<lparr>base64 = (\<lambda>_. []), regexI = (\<lambda>_. None), later = Suc\<rparr>"
        "[(7, MarkMessageAsRead \<lparr>socketId = ''s2'', socketUser = ''bob''\<rparr> 1),
          (8, GetPrivateMessages \<lparr>socketId = ''s2'', socketUser = ''bob''\<rparr> ''alice'')]"]
  by (simp add: initial_def newPrivateMessage_def)

section \<open>C7: what removes a typing relation\<close>

text \<open>
  Claim C7 says that only a stop-typing event and a message send remove a typing relation,
  and that a message send always does. Two more operations remove one. Alice connects and
  starts typing to Bob; when her connection goes away her whole entry is deleted, and when
  she connects a second time, on another socket, her set is replaced by an empty one. And
  two sends remove nothing: a private message with an empty content, which the store
  refuses, so that the handler ends before it reaches the typing indicator; and the file
  message that the completion of an upload stores and sends to Bob.
\<close>

theorem C7_counterexample:
  "''bob'' \<in> typingTo (fst (run emptyDecoder (initial [] [] [] Map.empty)
       [(1, Connection \<lparr>socketId = ''s1'', socketUser = ''alice''\<rparr>),
        (2, Typing \<lparr>socketId = ''s1'', socketUser = ''alice''\<rparr> ''bob'')])) ''alice''
   \<and> ''bob'' \<notin> typingTo (fst (run emptyDecoder (initial [] [] [] Map.empty)
       [(1, Connection \<lparr>socketId = ''s1'', socketUser = ''alice''\<rparr>),
        (2, Typing \<lparr>socketId = ''s1'', socketUser = ''alice''\<rparr> ''bob''),
        (3, Disconnect \<lparr>socketId = ''s1'', socketUser = ''alice''\<rparr>)])) ''alice''
   \<and> ''bob'' \<notin> typingTo (fst (run emptyDecoder (initial [] [] [] Map.empty)
       [(1, Connection \<lparr>socketId = ''s1'', socketUser = ''alice''\<rparr>),
        (2, Typing \<lparr>socketId = ''s1'', socketUser = ''alice''\<rparr> ''bob''),
        (3, Connection \<lparr>socketId = ''s2'', socketUser = ''alice''\<rparr>)])) ''alice''
   \<and> ''bob'' \<in> typingTo (fst (run emptyDecoder (initial [] [] [] Map.empty)
       [(1, Connection \<lparr>socketId = ''s1'', socketUser = ''alice''\<rparr>),
        (2, Typing \<lparr>socketId = ''s1'', socketUser = ''alice''\<rparr> ''bob''),
        (3, SendPrivateMessage \<lparr>socketId = ''s1'', socketUser = ''alice''\<rparr> ''bob'' '''')])) ''alice''
   \<and> map receiver (privateMessageModel (fst (run emptyDecoder (initial [] [] [] Map.empty)
       [(1, Connection \<lparr>socketId = ''s1'', socketUser = ''alice''\<rparr>),
        (2, Typing \<lparr>socketId = ''s1'', socketUser = ''alice''\<rparr> ''bob''),
        (3, StartFileUpload \<lparr>socketId = ''s1'', socketUser = ''alice''\<rparr>
              \<lparr>sp_receiver = ''bob'', sp_fileName = ''f.txt'', sp_fileType = ''text/plain'',
               sp_fileSize = 2, sp_totalChunks = 1\<rparr> ''r''),
        (4, UploadChunk \<lparr>socketId = ''s1'', socketUser = ''alice''\<rparr>
              \<lparr>p_uploadId = ''3-r'', p_chunk = ''data:text/plain;base64,QQ=='', p_chunkIndex = 0,
               p_receiver = ''bob'', p_fileName = ''f.txt'', p_fileType = ''text/plain'',
               p_fileSize = 2\<rparr>)]))) = [''bob'']
   \<and> ''bob'' \<in> typingTo (fst (run emptyDecoder (initial [] [] [] Map.empty)
       [(1, Connection \<lparr>socketId = ''s1'', socketUser = ''alice''\<rparr>),
        (2, Typing \<lparr>socketId = ''s1'', socketUser = ''alice''\<rparr> ''bob''),
        (3, StartFileUpload \<lparr>socketId = ''s1'', socketUser = ''alice''\<rparr>
              \<lparr>sp_receiver = ''bob'', sp_fileName = ''f.txt'', sp_fileType = ''text/plain'',
               sp_fileSize = 2, sp_totalChunks = 1\<rparr> ''r''),
        (4, UploadChunk \<lparr>socketId = ''s1'', socketUser = ''alice''\<rparr>
              \<lparr>p_uploadId = ''3-r'', p_chunk = ''data:text/plain;base64,QQ=='', p_chunkIndex = 0,
               p_receiver = ''bob'', p_fileName = ''f.txt'', p_fileType = ''text/plain'',
               p_fileSize = 2\<rparr>)])) ''alice''"
  by (simp add: handleConnection_def handleDisconnect_def handleTyping_def initial_def
        typingTo_def findSocket_def findOneAndUpdate_def Let_def
        handlePrivateMessage_def save_def saveModified_def storable_def newPrivateMessage_def
        emptyDecoder_def handleStartFileUpload_def showNat.simps handleUploadChunk_def
        uploadChunkBegin_def settle_def resumeToEnd_def uploadChunkResume_def fileMessage_def
        decodeChunk_def arraySet_def populated_def newObjectId_def broadcastUserList_def)

text \<open>
  Claim C7, amended. If a step of the gateway removes the recipient \<open>r\<close> from the set of
  the sender \<open>s\<close>, the event is one of four: a stop-typing event of \<open>s\<close> for \<open>r\<close>, a
  private message of \<open>s\<close> to \<open>r\<close> that the store accepts (no empty sender name,
  receiver or content), a connection under the username \<open>s\<close>, or the disconnection of a
  connection that the registry maps to \<open>s\<close>. After a private message that the store
  accepts the sender is not typing to the receiver, and when the registry finds a
  connection for the receiver, the last action of the handler sends it
  \<open>userStoppedTyping\<close> with the sender's name; no stop-typing event is involved. A
  private message that the store refuses changes nothing and sends nothing, and a chunk
  of an upload, the one that completes it and sends the file message included, leaves
  every typing relation as it was.
\<close>

theorem C7_what_removes_a_typing_relation:
  "(r \<in> typingTo st s \<and> r \<notin> typingTo (fst (step e st (now, ev))) s \<longrightarrow>
      (\<exists>c. socketUser c = s
          \<and> (ev = StopTyping c r
              \<or> (\<exists>body. ev = SendPrivateMessage c r body \<and> s \<noteq> [] \<and> r \<noteq> [] \<and> body \<noteq> [])
              \<or> ev = Connection c))
      \<or> (\<exists>c. ev = Disconnect c \<and> map_of (connectedUsers st) (socketId c) = Some s))
   \<and> (socketUser c' \<noteq> [] \<and> r' \<noteq> [] \<and> body' \<noteq> [] \<longrightarrow>
        r' \<notin> typingTo (fst (handlePrivateMessage e' now' c' r' body' st')) (socketUser c')
        \<and> (findSocket (connectedUsers st') r' = Some rs \<longrightarrow>
             last (snd (handlePrivateMessage e' now' c' r' body' st'))
               = Emit (ToRoom rs) (UserStoppedTyping (socketUser c'))))
   \<and> (socketUser c' = [] \<or> r' = [] \<or> body' = [] \<longrightarrow>
        handlePrivateMessage e' now' c' r' body' st' = (st', []))
   \<and> typingTo (fst (handleUploadChunk e' now' c' p' st')) s' = typingTo st' s'"
proof (intro conjI impI)
  assume a: "r \<in> typingTo st s \<and> r \<notin> typingTo (fst (step e st (now, ev))) s"
  then show "(\<exists>c. socketUser c = s
          \<and> (ev = StopTyping c r
              \<or> (\<exists>body. ev = SendPrivateMessage c r body \<and> s \<noteq> [] \<and> r \<noteq> [] \<and> body \<noteq> [])
              \<or> ev = Connection c))
      \<or> (\<exists>c. ev = Disconnect c \<and> map_of (connectedUsers st) (socketId c) = Some s)"
    unfolding step_typingTo_other
    by (cases ev) (auto split: option.splits if_splits)
next
  assume "socketUser c' \<noteq> [] \<and> r' \<noteq> [] \<and> body' \<noteq> []"
  then show "r' \<notin> typingTo (fst (handlePrivateMessage e' now' c' r' body' st')) (socketUser c')"
    by (simp add: handlePrivateMessage_typingTo)
next
  assume "socketUser c' \<noteq> [] \<and> r' \<noteq> [] \<and> body' \<noteq> []"
    and "findSocket (connectedUsers st') r' = Some rs"
  then show "last (snd (handlePrivateMessage e' now' c' r' body' st'))
          = Emit (ToRoom rs) (UserStoppedTyping (socketUser c'))"
    by (intro handlePrivateMessage_last) simp_all
next
  assume "socketUser c' = [] \<or> r' = [] \<or> body' = []"
  then show "handlePrivateMessage e' now' c' r' body' st' = (st', [])"
    by (rule handlePrivateMessage_refused)
next
  show "typingTo (fst (handleUploadChunk e' now' c' p' st')) s' = typingTo st' s'"
    by (simp add: typingTo_def handleUploadChunk_frame)
qed

theorem C7_witness:
  "''bob'' \<in> typingTo ((initial [] [] [] Map.empty)
       \<lparr>connectedUsers := [(''s1'', ''alice''), (''s3'', ''bob'')],
        typingUsers := [''alice'' \<mapsto> {''bob''}]\<rparr>) ''alice''
   \<and> socketUser \<lparr>socketId = ''s1'', socketUser = ''alice''\<rparr> \<noteq> [] \<and> ''bob'' \<noteq> [] \<and> ''hi'' \<noteq> []
   \<and> ''bob'' \<notin> typingTo (fst (step emptyDecoder
       ((initial [] [] [] Map.empty)
          \<lparr>connectedUsers := [(''s1'', ''alice''), (''s3'', ''bob'')],
           typingUsers := [''alice'' \<mapsto> {''bob''}]\<rparr>)
       (4, SendPrivateMessage \<lparr>socketId = ''s1'', socketUser = ''alice''\<rparr> ''bob'' ''hi''))) ''alice''
   \<and> findSocket (connectedUsers ((initial [] [] [] Map.empty)
       \<lparr>connectedUsers := [(''s1'', ''alice''), (''s3'', ''bob'')],
        typingUsers := [''alice'' \<mapsto> {''bob''}]\<rparr>)) ''bob'' = Some ''s3''
   \<and> last (snd (handlePrivateMessage emptyDecoder 4 \<lparr>socketId = ''s1'', socketUser = ''alice''\<rparr>
       ''bob'' ''hi''
       ((initial [] [] [] Map.empty)
          \<lparr>connectedUsers := [(''s1'', ''alice''), (''s3'', ''bob'')],
           typingUsers := [''alice'' \<mapsto> {''bob''}]\<rparr>)))
     = Emit (ToRoom ''s3'') (UserStoppedTyping ''alice'')
   \<and> handlePrivateMessage emptyDecoder 4 \<lparr>socketId = ''s1'', socketUser = ''alice''\<rparr> ''bob'' ''''
       ((initial [] [] [] Map.empty)
          \<lparr>connectedUsers := [(''s1'', ''alice''), (''s3'', ''bob'')],
           typingUsers := [''alice'' \<mapsto> {''bob''}]\<rparr>)
     = ((initial [] [] [] Map.empty)
          \<lparr>connectedUsers := [(''s1'', ''alice''), (''s3'', ''bob'')],
           typingUsers := [''alice'' \<mapsto> {''bob''}]\<rparr>, [])"
proof -
  let ?st = "(initial [] [] [] Map.empty)
          \<lparr>connectedUsers := [(''s1'', ''alice''), (''s3'', ''bob'')],
           typingUsers := [''alice'' \<mapsto> {''bob''}]\<rparr>"
  let ?c = "\<lparr>socketId = ''s1'', socketUser = ''alice''\<rparr>"
  have ne: "socketUser ?c \<noteq> [] \<and> ''bob'' \<noteq> [] \<and> ''hi'' \<noteq> []" by simp
  have f: "findSocket (connectedUsers ?st) ''bob'' = Some ''s3''"
    by (simp add: initial_def findSocket_def)
  have t: "''bob'' \<in> typingTo ?st ''alice''"
    by (simp add: initial_def typingTo_def)
  note inst = C7_what_removes_a_typing_relation
    [where c' = ?c and r' = "''bob''" and body' = "''hi''" and e' = emptyDecoder and now' = 4
       and st' = ?st and rs = "''s3''"]
  from inst [THEN conjunct2, THEN conjunct1, THEN mp, OF ne]
  have gone: "''bob'' \<notin> typingTo (fst (handlePrivateMessage emptyDecoder 4 ?c ''bob'' ''hi'' ?st))
                (socketUser ?c)"
    and lst: "last (snd (handlePrivateMessage emptyDecoder 4 ?c ''bob'' ''hi'' ?st))
               = Emit (ToRoom ''s3'') (UserStoppedTyping (socketUser ?c))"
    using f by blast+
  have e: "socketUser ?c = [] \<or> ''bob'' = [] \<or> '''' = ([]::string)" by simp
  from C7_what_removes_a_typing_relation
    [where c' = ?c and r' = "''bob''" and body' = "''''" and e' = emptyDecoder and now' = 4
       and st' = ?st,
     THEN conjunct2, THEN conjunct2, THEN conjunct1, THEN mp, OF e]
  have refused: "handlePrivateMessage emptyDecoder 4 ?c ''bob'' '''' ?st = (?st, [])" .
  from t ne gone f lst refused show ?thesis by simp
qed

section \<open>C8: a chunk for a cancelled upload\<close>

lemma handleUploadChunk_stays_absent:
  "tempUploads st uid = None \<Longrightarrow> tempUploads (fst (handleUploadChunk e now c p st)) uid = None"
  using handleUploadChunk_frame [of e now c p st uid] by simp

lemma step_stays_absent:
  assumes "tempUploads st uid = None" and "\<not> startsUpload uid ev"
  shows "tempUploads (fst (step e st ev)) uid = None"
proof (cases ev)
  case (Pair now x)
  show ?thesis
    using assms unfolding Pair
    by (cases x)
       (simp_all add: handleUploadChunk_stays_absent handlePrivateMessage_frame
          handleConnection_def handleDisconnect_def handleJoinRoom_def handleLeaveRoom_def
          handleMessage_def handleMarkMessageAsRead_def
          handleGetPrivateMessages_def handleSearchUsers_def handleTyping_def
          handleStopTyping_def handleStartFileUpload_def handleCancelUpload_def
          Let_def split_beta split: option.splits sum.splits)
qed

lemma run_stays_absent:
  assumes "tempUploads st uid = None" and "\<forall>ev\<in>set evs. \<not> startsUpload uid ev"
  shows "tempUploads (fst (run e st evs)) uid = None"
  using assms
proof (induction evs arbitrary: st)
  case Nil
  then show ?case by simp
next
  case (Cons ev evs)
  from Cons.prems have "tempUploads (fst (step e st ev)) uid = None"
    by (intro step_stays_absent) simp_all
  moreover from Cons.prems have "\<forall>ev\<in>set evs. \<not> startsUpload uid ev" by simp
  ultimately have "tempUploads (fst (run e (fst (step e st ev)) evs)) uid = None"
    by (rule Cons.IH)
  then show ?case by (simp only: fst_run_Cons)
qed

text \<open>
  Claim C8. Cancelling answers the caller with \<open>uploadCancelled\<close> whatever the registry of
  sessions holds, and leaves no session under the identifier; a second cancellation
  changes nothing and is answered the same way. Let any events follow, none of which
  creates a session with that identifier again. A chunk submitted then for the identifier
  fails with \<open>SessionNotFound\<close> inside the handler; the caller receives \<open>uploadError\<close> with
  the identifier and nothing else happens: the state, the registry of connections
  included, stays as it was.
\<close>

theorem C8_chunk_after_cancel_is_an_error:
  "snd (handleCancelUpload c uid st) = [Emit (ToClient (socketId c)) (UploadCancelled uid)]
   \<and> tempUploads (fst (handleCancelUpload c uid st)) uid = None
   \<and> handleCancelUpload c' uid (fst (handleCancelUpload c uid st))
       = (fst (handleCancelUpload c uid st), [Emit (ToClient (socketId c')) (UploadCancelled uid)])
   \<and> ((\<forall>ev\<in>set evs. \<not> startsUpload uid ev) \<longrightarrow>
        uploadChunkBegin e now c'' (payload\<lparr>p_uploadId := uid\<rparr>)
            (fst (run e (fst (handleCancelUpload c uid st)) evs))
          = (fst (run e (fst (handleCancelUpload c uid st)) evs), [], Inl SessionNotFound)
        \<and> handleUploadChunk e now c'' (payload\<lparr>p_uploadId := uid\<rparr>)
            (fst (run e (fst (handleCancelUpload c uid st)) evs))
          = (fst (run e (fst (handleCancelUpload c uid st)) evs),
             [Emit (ToClient (socketId c'')) (UploadError ''Failed to upload chunk'' (Some uid))]))"
proof (intro conjI impI)
  assume "\<forall>ev\<in>set evs. \<not> startsUpload uid ev"
  moreover have "tempUploads (fst (handleCancelUpload c uid st)) uid = None"
    by (simp add: handleCancelUpload_def)
  ultimately have absent: "tempUploads (fst (run e (fst (handleCancelUpload c uid st)) evs)) uid = None"
    by (intro run_stays_absent)
  then show "uploadChunkBegin e now c'' (payload\<lparr>p_uploadId := uid\<rparr>)
            (fst (run e (fst (handleCancelUpload c uid st)) evs))
          = (fst (run e (fst (handleCancelUpload c uid st)) evs), [], Inl SessionNotFound)"
    by (simp add: uploadChunkBegin_no_session)
  from absent show "handleUploadChunk e now c'' (payload\<lparr>p_uploadId := uid\<rparr>)
            (fst (run e (fst (handleCancelUpload c uid st)) evs))
          = (fst (run e (fst (handleCancelUpload c uid st)) evs),
             [Emit (ToClient (socketId c'')) (UploadError ''Failed to upload chunk'' (Some uid))])"
    by (simp add: handleUploadChunk_no_session)
qed (simp_all add: handleCancelUpload_def)

theorem C8_witness:
  "tempUploads
       ((initial [] [] [] Map.empty)
                 \<lparr>tempUploads := [''1-r'' \<mapsto> \<lparr>chunks = [], totalChunks = 2\<rparr>]\<rparr>)
       ''1-r'' = Some \<lparr>chunks = [], totalChunks = 2\<rparr>
   \<and> \<not> startsUpload ''1-r'' (5, Typing \<lparr>socketId = ''s1'', socketUser = ''alice''\<rparr> ''bob'')
   \<and> handleUploadChunk \<lparr>base64 = (\<lambda>_. []), regexI = (\<lambda>_. None), later = Suc\<rparr> 6
        \<lparr>socketId = ''s1'', socketUser = ''alice''\<rparr>
        \<lparr>p_uploadId = ''1-r'', p_chunk = ''data:text/plain;base64,QQ=='', p_chunkIndex = 0,
          p_receiver = ''bob'', p_fileName = ''f.txt'', p_fileType = ''text/plain'',
          p_fileSize = 2\<rparr>
        (fst (run \<lparr>base64 = (\<lambda>_. []), regexI = (\<lambda>_. None), later = Suc\<rparr>
           (fst (handleCancelUpload \<lparr>socketId = ''s1'', socketUser = ''alice''\<rparr> ''1-r''
              ((initial [] [] [] Map.empty)
                 \<lparr>tempUploads := [''1-r'' \<mapsto> \<lparr>chunks = [], totalChunks = 2\<rparr>]\<rparr>)))
           [(5, Typing \<lparr>socketId = ''s1'', socketUser = ''alice''\<rparr> ''bob'')]))
     = (fst (run \<lparr>base64 = (\<lambda>_. []), regexI = (\<lambda>_. None), later = Suc\<rparr>
           (fst (handleCancelUpload \<lparr>socketId = ''s1'', socketUser = ''alice''\<rparr> ''1-r''
              ((initial [] [] [] Map.empty)
                 \<lparr>tempUploads := [''1-r'' \<mapsto> \<lparr>chunks = [], totalChunks = 2\<rparr>]\<rparr>)))
           [(5, Typing \<lparr>socketId = ''s1'', socketUser = ''alice''\<rparr> ''bob'')]),
        [Emit (ToClient ''s1'') (UploadError ''Failed to upload chunk'' (Some ''1-r''))])"
proof -
  have h: "\<forall>ev\<in>set [(5, Typing \<lparr>socketId = ''s1'', socketUser = ''alice''\<rparr> ''bob'')].
             \<not> startsUpload ''1-r'' ev"
    by simp
  from C8_chunk_after_cancel_is_an_error
    [where c = "\<lparr>socketId = ''s1'', socketUser = ''alice''\<rparr>" and uid = "''1-r''"
       and st = "((initial [] [] [] Map.empty)
                 \<lparr>tempUploads := [''1-r'' \<mapsto> \<lparr>chunks = [], totalChunks = 2\<rparr>]\<rparr>)"
       and evs = "[(5, Typing \<lparr>socketId = ''s1'', socketUser = ''alice''\<rparr> ''bob'')]"
       and e = "\<lparr>base64 = (\<lambda>_. []), regexI = (\<lambda>_. None), later = Suc\<rparr>" and now = 6
       and c'' = "\<lparr>socketId = ''s1'', socketUser = ''alice''\<rparr>"
       and payload = "\<lparr>p_uploadId = ''1-r'', p_chunk = ''data:text/plain;base64,QQ=='', p_chunkIndex = 0,
          p_receiver = ''bob'', p_fileName = ''f.txt'', p_fileType = ''text/plain'',
          p_fileSize = 2\<rparr>",
     THEN conjunct2, THEN conjunct2, THEN conjunct2, THEN mp, OF h, THEN conjunct2]
  show ?thesis by simp
qed

section \<open>C9: the two directions of the registry agree\<close>

text \<open>
  Claim C9. Start from the gateway as constructed and let any sequence of events arrive,
  connections and disconnections among them. Whenever the lookup of a username yields a
  connection, the registry maps that connection to the same username.
\<close>

theorem C9_registry_lookups_agree:
  "findSocket (connectedUsers (fst (run e (initial rms pms us dir) evs))) name = Some sid
   \<longrightarrow> map_of (connectedUsers (fst (run e (initial rms pms us dir) evs))) sid = Some name"
proof
  have "distinct (map fst (connectedUsers (initial rms pms us dir)))"
    by (simp add: initial_def)
  then have "distinct (map fst (connectedUsers (fst (run e (initial rms pms us dir) evs))))"
    by (rule run_distinct_sockets)
  moreover assume "findSocket (connectedUsers (fst (run e (initial rms pms us dir) evs))) name = Some sid"
  ultimately show "map_of (connectedUsers (fst (run e (initial rms pms us dir) evs))) sid = Some name"
    by (rule findSocket_lookup)
qed

theorem C9_witness:
  "findSocket (connectedUsers (fst (run \<lparr>base64 = (\<lambda>_. []), regexI = (\<lambda>_. None), later = Suc\<rparr>
       (initial [] [] [] Map.empty)
       [(1, Connection \<lparr>socketId = ''s1'', socketUser = ''alice''\<rparr>),
        (2, Connection \<lparr>socketId = ''s2'', socketUser = ''bob''\<rparr>),
        (3, Disconnect \<lparr>socketId = ''s1'', socketUser = ''alice''\<rparr>)]))) ''bob'' = Some ''s2''
   \<and> map_of (connectedUsers (fst (run \<lparr>base64 = (\<lambda>_. []), regexI = (\<lambda>_. None), later = Suc\<rparr>
       (initial [] [] [] Map.empty)
       [(1, Connection \<lparr>socketId = ''s1'', socketUser = ''alice''\<rparr>),
        (2, Connection \<lparr>socketId = ''s2'', socketUser = ''bob''\<rparr>),
        (3, Disconnect \<lparr>socketId = ''s1'', socketUser = ''alice''\<rparr>)]))) ''s2'' = Some ''bob''"
proof -
  have h: "findSocket (connectedUsers (fst (run \<lparr>base64 = (\<lambda>_. []), regexI = (\<lambda>_. None), later = Suc\<rparr>
       (initial [] [] [] Map.empty)
       [(1, Connection \<lparr>socketId = ''s1'', socketUser = ''alice''\<rparr>),
        (2, Connection \<lparr>socketId = ''s2'', socketUser = ''bob''\<rparr>),
        (3, Disconnect \<lparr>socketId = ''s1'', socketUser = ''alice''\<rparr>)]))) ''bob'' = Some ''s2''"
    by (simp add: handleConnection_def handleDisconnect_def initial_def findSocket_def
          findOneAndUpdate_def AList.delete_eq Let_def)
  from h C9_registry_lookups_agree [THEN mp, OF h] show ?thesis by (rule conjI)
qed

section \<open>C10: user records leave the process without the password\<close>

lemma exclude_password [simp]: "(''password'', b) \<notin> set (exclude [''password''] d)"
  by (auto simp: exclude_def)

lemma broadcastUserList_no_password:
  "Emit t (UserList ds) \<in> set (broadcastUserList st) \<Longrightarrow> d \<in> set ds \<Longrightarrow> (''password'', b) \<notin> set d"
  by (auto simp: broadcastUserList_def)

lemma broadcastUserList_no_SearchResults [simp]:
  "Emit t (SearchResults ds) \<notin> set (broadcastUserList st)"
  by (simp add: broadcastUserList_def)

lemma resumeToEnd_no_user_records:
  "Emit t (UserList ds) \<notin> set (fst (snd (resumeToEnd e now c p s st)))
   \<and> Emit t (SearchResults ds) \<notin> set (fst (snd (resumeToEnd e now c p s st)))"
proof (cases s)
  case (AtWrite name)
  then show ?thesis
    by (simp add: resumeToEnd_AtWrite resumeToEnd_AtSave split: option.splits sum.splits)
next
  case (AtSave m)
  then show ?thesis
    by (simp add: resumeToEnd_AtSave split: option.splits sum.splits)
next
  case (AtDeliveredSave m)
  then show ?thesis by (simp add: resumeToEnd_AtDeliveredSave)
qed

lemma handleUploadChunk_no_user_records:
  "Emit t (UserList ds) \<notin> set (snd (handleUploadChunk e now c p st))
   \<and> Emit t (SearchResults ds) \<notin> set (snd (handleUploadChunk e now c p st))"
proof -
  have b: "Emit t (UserList ds) \<notin> set (fst (snd (uploadChunkBegin e now c p st)))
         \<and> Emit t (SearchResults ds) \<notin> set (fst (snd (uploadChunkBegin e now c p st)))"
    by (simp add: uploadChunkBegin_def Let_def split: option.splits sum.splits)
  have s: "Emit t (UserList ds) \<notin> set (snd (settle e now c p r st'))
         \<and> Emit t (SearchResults ds) \<notin> set (snd (settle e now c p r st'))" for r st'
  proof (cases r)
    case (Inl err)
    then show ?thesis by (simp add: settle_Inl)
  next
    case (Inr res)
    then show ?thesis
      using resumeToEnd_no_user_records [of t ds e now c p _ st']
      by (cases res) (auto simp: settle_None settle_Some split: sum.splits)
  qed
  show ?thesis
    using b s by (simp add: handleUploadChunk_pieces)
qed

lemma handlePrivateMessage_no_user_records:
  "Emit t (UserList ds) \<notin> set (snd (handlePrivateMessage e now c r body st))
   \<and> Emit t (SearchResults ds) \<notin> set (snd (handlePrivateMessage e now c r body st))"
proof (cases "socketUser c = [] \<or> r = [] \<or> body = []")
  case True
  then show ?thesis by (simp add: handlePrivateMessage_refused)
next
  case False
  then show ?thesis
    by (simp add: handlePrivateMessage_stored handleStopTyping_def Let_def split: option.splits)
qed

lemma step_no_password:
  assumes a: "Emit t (UserList ds) \<in> set (snd (step e st ev))
            \<or> Emit t (SearchResults ds) \<in> set (snd (step e st ev))"
    and d: "d \<in> set ds"
  shows "''password'' \<notin> fst ` set d"
proof (cases ev)
  case (Pair now x)
  show ?thesis
  proof (cases x)
    case (Connection c)
    with Pair a d show ?thesis
      by (auto simp: handleConnection_def Let_def dest: broadcastUserList_no_password)
  next
    case (Disconnect c)
    with Pair a d show ?thesis
      by (auto simp: handleDisconnect_def Let_def split: option.splits if_splits
               dest: broadcastUserList_no_password)
  next
    case (SearchUsers c q)
    with Pair a d show ?thesis
      by (auto simp: handleSearchUsers_def split: option.splits)
  next
    case (UploadChunk c p)
    with Pair a show ?thesis
      using handleUploadChunk_no_user_records [of t ds e now c p st] by simp
  next
    case (SendPrivateMessage c r body)
    with Pair a show ?thesis
      using handlePrivateMessage_no_user_records [of t ds e now c r body st] by simp
  next
    case (MarkMessageAsRead c i)
    with Pair a show ?thesis
      by (auto simp: handleMarkMessageAsRead_def Let_def
               split: option.splits sum.splits if_splits)
  qed (use Pair a d in \<open>auto simp: handleJoinRoom_def handleLeaveRoom_def handleMessage_def
         handleGetPrivateMessages_def
         handleTyping_def handleStopTyping_def handleStartFileUpload_def handleCancelUpload_def
         notifySenders_def Let_def
         split: option.splits if_splits prod.splits\<close>)
qed

text \<open>
  Claim C10. Whatever the stores hold and whatever events arrive (every search query
  included), a user record carried by a \<open>userList\<close> broadcast or by a \<open>searchResults\<close>
  reply has no \<open>password\<close> field.
\<close>

theorem C10_user_records_without_password:
  assumes "Emit t (UserList ds) \<in> set (snd (run e st evs))
         \<or> Emit t (SearchResults ds) \<in> set (snd (run e st evs))"
    and "d \<in> set ds"
  shows "''password'' \<notin> fst ` set d"
  using assms
proof (induction evs arbitrary: st)
  case Nil
  then show ?case by simp
next
  case (Cons ev evs)
  from Cons.prems(1)
  consider "Emit t (UserList ds) \<in> set (snd (step e st ev))
          \<or> Emit t (SearchResults ds) \<in> set (snd (step e st ev))"
    | "Emit t (UserList ds) \<in> set (snd (run e (fst (step e st ev)) evs))
     \<or> Emit t (SearchResults ds) \<in> set (snd (run e (fst (step e st ev)) evs))"
    by (auto simp: snd_run_Cons simp del: run.simps)
  then show ?case
  proof cases
    case 1
    then show ?thesis using Cons.prems(2) by (rule step_no_password)
  next
    case 2
    then show ?thesis using Cons.prems(2) by (rule Cons.IH)
  qed
qed

theorem C10_witness:
  "Emit (ToClient ''s1'')
     (SearchResults [[(''_id'', JId 7), (''username'', JStr ''alice''), (''isOnline'', JBool False),
                      (''lastSeen'', JDate 3), (''createdAt'', JDate 2)]])
     \<in> set (snd (run \<lparr>base64 = (\<lambda>_. []), regexI = (\<lambda>_. Some (\<lambda>_. True)), later = Suc\<rparr>
                   (initial [] []
                      [\<lparr>user_id = 7, username = ''alice'', password = ''secret'',
                        isOnline = False, lastSeen = 3, createdAt = 2\<rparr>] Map.empty)
                   [(10, SearchUsers \<lparr>socketId = ''s1'', socketUser = ''bob''\<rparr> ''al'')]))
   \<and> ''password'' \<notin> fst ` set [(''_id'', JId 7), (''username'', JStr ''alice''),
                                (''isOnline'', JBool False), (''lastSeen'', JDate 3),
                                (''createdAt'', JDate 2)]"
proof -
  have h: "Emit (ToClient ''s1'')
     (SearchResults [[(''_id'', JId 7), (''username'', JStr ''alice''), (''isOnline'', JBool False),
                      (''lastSeen'', JDate 3), (''createdAt'', JDate 2)]])
     \<in> set (snd (run \<lparr>base64 = (\<lambda>_. []), regexI = (\<lambda>_. Some (\<lambda>_. True)), later = Suc\<rparr>
                   (initial [] []
                      [\<lparr>user_id = 7, username = ''alice'', password = ''secret'',
                        isOnline = False, lastSeen = 3, createdAt = 2\<rparr>] Map.empty)
                   [(10, SearchUsers \<lparr>socketId = ''s1'', socketUser = ''bob''\<rparr> ''al'')]))"
    by (simp add: handleSearchUsers_def initial_def userDoc_def exclude_def)
  have "''password'' \<notin> fst ` set [(''_id'', JId 7), (''username'', JStr ''alice''),
                                (''isOnline'', JBool False), (''lastSeen'', JDate 3),
                                (''createdAt'', JDate 2)]"
    by (rule C10_user_records_without_password [OF disjI2 [OF h]]) simp
  with h show ?thesis by simp
qed

end
